theory Spec2Isabelle
  imports Complex_Main "HOL-Library.AList"
begin

section \<open>Numbers and dates of the host language\<close>

text \<open>
  The view is written in TypeScript. Every calendar computation of \<^verbatim>\<open>App.tsx\<close> goes
  through the built-in \<^verbatim>\<open>Date\<close> object, so the embedding starts with the part of the
  ECMAScript date semantics (ECMA-262, section "Date Objects") that the source calls:
  the constructor \<^verbatim>\<open>new Date(year, month, date)\<close>, the copy constructor, the local getters
  \<^verbatim>\<open>getFullYear\<close>, \<^verbatim>\<open>getMonth\<close>, \<^verbatim>\<open>getDate\<close>, \<^verbatim>\<open>getDay\<close>, the setter \<^verbatim>\<open>setDate\<close>
  and \<^verbatim>\<open>toISOString\<close>.

  A number that the source computes from a date is an integer or \<^verbatim>\<open>NaN\<close>; it is
  modelled as \<open>int option\<close> with \<open>None\<close> for \<^verbatim>\<open>NaN\<close>. All integers that occur are far
  below \<open>2^53\<close>, where the arithmetic of doubles is exact.

  The time zone of the host is a parameter \<open>tza\<close> of every local operation: the offset
  of local time from UTC in milliseconds, constant over time (a zone without daylight
  saving changes, such as UTC itself or Europe/Moscow with \<open>tza = 10800000\<close>).
\<close>

type_synonym number = "int option"

definition num_add :: "number \<Rightarrow> number \<Rightarrow> number" where
  "num_add a b = (case (a, b) of (Some x, Some y) \<Rightarrow> Some (x + y) | _ \<Rightarrow> None)"

definition num_sub :: "number \<Rightarrow> number \<Rightarrow> number" where
  "num_sub a b = (case (a, b) of (Some x, Some y) \<Rightarrow> Some (x - y) | _ \<Rightarrow> None)"

text \<open>The operator \<^verbatim>\<open>%\<close> truncates towards zero and yields \<^verbatim>\<open>NaN\<close> for a zero divisor.\<close>

definition num_rem :: "number \<Rightarrow> number \<Rightarrow> number" where
  "num_rem a b =
     (case (a, b) of
        (Some x, Some y) \<Rightarrow> (if y = 0 then None else Some (sgn x * (\<bar>x\<bar> mod \<bar>y\<bar>)))
      | _ \<Rightarrow> None)"

text \<open>Strict equality \<^verbatim>\<open>===\<close> on numbers: \<^verbatim>\<open>NaN\<close> equals nothing, not even itself.\<close>

definition strict_eq :: "number \<Rightarrow> number \<Rightarrow> bool" where
  "strict_eq a b = (case (a, b) of (Some x, Some y) \<Rightarrow> x = y | _ \<Rightarrow> False)"

subsection \<open>Doubles\<close>

text \<open>
  The coordinates of a touch are doubles (IEEE 754 binary64) and may have a fractional
  part. A finite double is modelled by the real number it denotes. The result of an
  arithmetic operation on finite doubles is the exact result rounded to the nearest
  double, ties to the even significand, or an infinity when the rounded magnitude
  reaches \<open>2^1024\<close>; it is never \<^verbatim>\<open>NaN\<close> for a subtraction of finite doubles.
\<close>

datatype Double = Finite real | PosInfinity | NegInfinity

text \<open>The number of binary digits of a natural number.\<close>

fun bitLength :: "nat \<Rightarrow> nat" where
  "bitLength n = (if n = 0 then 0 else Suc (bitLength (n div 2)))"

declare bitLength.simps [simp del]

text \<open>For \<open>x > 0\<close>, the exponent \<open>q\<close> with \<open>2^q \<le> x < 2^(q + 1)\<close>.\<close>

definition binaryExponent :: "real \<Rightarrow> int" where
  "binaryExponent x =
     (if 1 \<le> x then int (bitLength (nat \<lfloor>x\<rfloor>)) - 1
      else - int (bitLength (nat (\<lceil>1 / x\<rceil> - 1))))"

definition pow2 :: "int \<Rightarrow> real" where
  "pow2 e = (if 0 \<le> e then 2 ^ nat e else 1 / 2 ^ nat (- e))"

definition roundHalfEven :: "real \<Rightarrow> int" where
  "roundHalfEven x =
     (let f = \<lfloor>x\<rfloor>; d = x - of_int f
      in if d < 1 / 2 then f
         else if 1 / 2 < d then f + 1
         else if even f then f else f + 1)"

text \<open>
  A double has a significand of 53 binary digits, so the doubles around \<open>x\<close> are the
  multiples of \<open>2^(q - 52)\<close>, and of \<open>2^(-1074)\<close> in the subnormal range. The rounded
  value overflows when its own exponent is 1024 or more.
\<close>

definition roundToDouble :: "real \<Rightarrow> Double" where
  "roundToDouble x =
     (if x = 0 then Finite 0
      else
        (let e = max (binaryExponent \<bar>x\<bar> - 52) (- 1074);
             y = of_int (roundHalfEven (x / pow2 e)) * pow2 e
         in if 1024 \<le> binaryExponent \<bar>y\<bar> then (if 0 < x then PosInfinity else NegInfinity)
            else Finite y))"

definition doubleMinus :: "real \<Rightarrow> real \<Rightarrow> Double" where
  "doubleMinus a b = roundToDouble (a - b)"

text \<open>The comparisons \<^verbatim>\<open>>\<close> and \<^verbatim>\<open><\<close> of a double with a finite number.\<close>

definition greaterThan :: "Double \<Rightarrow> real \<Rightarrow> bool" where
  "greaterThan d t = (case d of Finite x \<Rightarrow> t < x | PosInfinity \<Rightarrow> True | NegInfinity \<Rightarrow> False)"

definition lessThan :: "Double \<Rightarrow> real \<Rightarrow> bool" where
  "lessThan d t = (case d of Finite x \<Rightarrow> x < t | PosInfinity \<Rightarrow> False | NegInfinity \<Rightarrow> True)"

subsection \<open>Days, years and months\<close>

definition msPerDay :: int where
  "msPerDay = 86400000"

definition Day :: "int \<Rightarrow> int" where
  "Day t = t div msPerDay"

definition TimeWithinDay :: "int \<Rightarrow> int" where
  "TimeWithinDay t = t mod msPerDay"

definition DaysInYear :: "int \<Rightarrow> int" where
  "DaysInYear y =
     (if y mod 4 \<noteq> 0 then 365
      else if y mod 100 \<noteq> 0 then 366
      else if y mod 400 \<noteq> 0 then 365
      else 366)"

definition DayFromYear :: "int \<Rightarrow> int" where
  "DayFromYear y =
     365 * (y - 1970) + (y - 1969) div 4 - (y - 1901) div 100 + (y - 1601) div 400"

text \<open>
  ECMAScript defines the year of a day as the largest \<open>y\<close> with \<open>DayFromYear y \<le> d\<close>.
  The executable form estimates the year from the mean length of a Gregorian year
  (146097 days in 400 years) and corrects the estimate by at most one; lemma
  \<open>YearFromDay_bounds\<close> below shows that it meets the defining property.
\<close>

definition YearFromDay :: "int \<Rightarrow> int" where
  "YearFromDay d =
     (let y = 1970 + (400 * d) div 146097
      in if d < DayFromYear y then y - 1
         else if DayFromYear (y + 1) \<le> d then y + 1
         else y)"

definition InLeapYear :: "int \<Rightarrow> int" where
  "InLeapYear d = (if DaysInYear (YearFromDay d) = 366 then 1 else 0)"

definition DayWithinYear :: "int \<Rightarrow> int" where
  "DayWithinYear d = d - DayFromYear (YearFromDay d)"

text \<open>The number of days of a year that lie before its month \<open>m\<close> (January is 0).\<close>

definition MonthStartDay :: "int \<Rightarrow> int \<Rightarrow> int" where
  "MonthStartDay m leap =
     (if m = 0 then 0
      else if m = 1 then 31
      else if m = 2 then 59 + leap
      else if m = 3 then 90 + leap
      else if m = 4 then 120 + leap
      else if m = 5 then 151 + leap
      else if m = 6 then 181 + leap
      else if m = 7 then 212 + leap
      else if m = 8 then 243 + leap
      else if m = 9 then 273 + leap
      else if m = 10 then 304 + leap
      else 334 + leap)"

definition MonthFromDay :: "int \<Rightarrow> int" where
  "MonthFromDay d =
     (let w = DayWithinYear d; leap = InLeapYear d
      in if w < 31 then 0
         else if w < 59 + leap then 1
         else if w < 90 + leap then 2
         else if w < 120 + leap then 3
         else if w < 151 + leap then 4
         else if w < 181 + leap then 5
         else if w < 212 + leap then 6
         else if w < 243 + leap then 7
         else if w < 273 + leap then 8
         else if w < 304 + leap then 9
         else if w < 334 + leap then 10
         else 11)"

definition DateFromDay :: "int \<Rightarrow> int" where
  "DateFromDay d = DayWithinYear d - MonthStartDay (MonthFromDay d) (InLeapYear d) + 1"

text \<open>Sunday is 0, Saturday is 6; 1 January 1970 (day 0) was a Thursday.\<close>

definition WeekDay :: "int \<Rightarrow> int" where
  "WeekDay d = (d + 4) mod 7"

subsection \<open>Building time values\<close>

definition MakeDay :: "int \<Rightarrow> int \<Rightarrow> int \<Rightarrow> int" where
  "MakeDay year month dt =
     (let ym = year + month div 12; mn = month mod 12
      in DayFromYear ym
         + MonthStartDay mn (if DaysInYear ym = 366 then 1 else 0)
         + dt - 1)"

definition MakeDate :: "int \<Rightarrow> int \<Rightarrow> int" where
  "MakeDate day time = day * msPerDay + time"

text \<open>The constructor maps the years 0 to 99 to 1900 to 1999.\<close>

definition MakeFullYear :: "int \<Rightarrow> int" where
  "MakeFullYear y = (if 0 \<le> y \<and> y \<le> 99 then 1900 + y else y)"

definition LocalTime :: "int \<Rightarrow> int \<Rightarrow> int" where
  "LocalTime tza t = t + tza"

definition UTC :: "int \<Rightarrow> int \<Rightarrow> int" where
  "UTC tza t = t - tza"

text \<open>
  A \<^verbatim>\<open>Date\<close> object holds a time value, milliseconds since 1 January 1970 UTC, or
  \<^verbatim>\<open>NaN\<close> (an invalid date). Time values lie within 100,000,000 days of the epoch.
\<close>

datatype Date = InvalidDate | TimeValue int

definition TimeClip :: "int \<Rightarrow> Date" where
  "TimeClip t = (if \<bar>t\<bar> > 8640000000000000 then InvalidDate else TimeValue t)"

definition newDate :: "int \<Rightarrow> number \<Rightarrow> number \<Rightarrow> number \<Rightarrow> Date" where
  "newDate tza year month dt =
     (case (year, month, dt) of
        (Some y, Some m, Some d) \<Rightarrow>
          TimeClip (UTC tza (MakeDate (MakeDay (MakeFullYear y) m d) 0))
      | _ \<Rightarrow> InvalidDate)"

definition copyDate :: "Date \<Rightarrow> Date" where
  "copyDate v = (case v of InvalidDate \<Rightarrow> InvalidDate | TimeValue t \<Rightarrow> TimeClip t)"

definition getFullYear :: "int \<Rightarrow> Date \<Rightarrow> number" where
  "getFullYear tza v =
     (case v of InvalidDate \<Rightarrow> None
      | TimeValue t \<Rightarrow> Some (YearFromDay (Day (LocalTime tza t))))"

definition getMonth :: "int \<Rightarrow> Date \<Rightarrow> number" where
  "getMonth tza v =
     (case v of InvalidDate \<Rightarrow> None
      | TimeValue t \<Rightarrow> Some (MonthFromDay (Day (LocalTime tza t))))"

definition getDate :: "int \<Rightarrow> Date \<Rightarrow> number" where
  "getDate tza v =
     (case v of InvalidDate \<Rightarrow> None
      | TimeValue t \<Rightarrow> Some (DateFromDay (Day (LocalTime tza t))))"

definition getDay :: "int \<Rightarrow> Date \<Rightarrow> number" where
  "getDay tza v =
     (case v of InvalidDate \<Rightarrow> None
      | TimeValue t \<Rightarrow> Some (WeekDay (Day (LocalTime tza t))))"

definition setDate :: "int \<Rightarrow> Date \<Rightarrow> number \<Rightarrow> Date" where
  "setDate tza v dt =
     (case (v, dt) of
        (TimeValue t, Some d) \<Rightarrow>
          (let l = LocalTime tza t
           in TimeClip (UTC tza (MakeDate
                (MakeDay (YearFromDay (Day l)) (MonthFromDay (Day l)) d)
                (TimeWithinDay l))))
      | _ \<Rightarrow> InvalidDate)"

subsection \<open>The ISO string of a date\<close>

datatype js_error = RangeError | TypeError

fun digits :: "nat \<Rightarrow> nat \<Rightarrow> string" where
  "digits 0 n = []"
| "digits (Suc w) n = digits w (n div 10) @ [''0123456789'' ! (n mod 10)]"

text \<open>
  \<^verbatim>\<open>toISOString\<close> prints the UTC fields of the time value. The year has four digits
  from 0 to 9999 and a sign with six digits otherwise; an invalid date raises
  \<^verbatim>\<open>RangeError\<close>.
\<close>

definition isoYear :: "int \<Rightarrow> string" where
  "isoYear y =
     (if 0 \<le> y \<and> y \<le> 9999 then digits 4 (nat y)
      else if 0 \<le> y then CHR ''+'' # digits 6 (nat y)
      else CHR ''-'' # digits 6 (nat (- y)))"

definition toISOString :: "Date \<Rightarrow> js_error + string" where
  "toISOString v =
     (case v of
        InvalidDate \<Rightarrow> Inl RangeError
      | TimeValue t \<Rightarrow>
          (let d = Day t; ms = TimeWithinDay t
           in Inr (isoYear (YearFromDay d) @ ''-''
                   @ digits 2 (nat (MonthFromDay d + 1)) @ ''-''
                   @ digits 2 (nat (DateFromDay d)) @ ''T''
                   @ digits 2 (nat (ms div 3600000)) @ '':''
                   @ digits 2 (nat ((ms div 60000) mod 60)) @ '':''
                   @ digits 2 (nat ((ms div 1000) mod 60)) @ ''.''
                   @ digits 3 (nat (ms mod 1000)) @ ''Z'')))"

section \<open>Workouts and their index\<close>

record Workout =
  title :: string
  date :: string
  exercises :: "string list"

text \<open>
  \<^verbatim>\<open>workoutsByDate\<close> reduces the fetched list into a plain object, starting from
  \<^verbatim>\<open>{}\<close>. The object is a map from own keys to lists. A plain object also inherits
  the properties of \<^verbatim>\<open>Object.prototype\<close>; all of them are truthy and none has a
  \<^verbatim>\<open>push\<close> method, so for a workout whose \<^verbatim>\<open>date\<close> is one of those names the guard
  \<^verbatim>\<open>!acc[workout.date]\<close> is false and \<^verbatim>\<open>acc[workout.date].push\<close> raises \<^verbatim>\<open>TypeError\<close>.
\<close>

type_synonym WorkoutIndex = "string \<rightharpoonup> Workout list"

definition inheritedKeys :: "string list" where
  "inheritedKeys =
     [''constructor'', ''__proto__'', ''hasOwnProperty'', ''isPrototypeOf'',
      ''propertyIsEnumerable'', ''toLocaleString'', ''toString'', ''valueOf'',
      ''__defineGetter__'', ''__defineSetter__'', ''__lookupGetter__'',
      ''__lookupSetter__'']"

definition indexWorkout :: "WorkoutIndex \<Rightarrow> Workout \<Rightarrow> js_error + WorkoutIndex" where
  "indexWorkout acc workout =
     (let k = Workout.date workout
      in if k \<in> set inheritedKeys then Inl TypeError
         else Inr (acc(k \<mapsto> (case acc k of None \<Rightarrow> [] | Some ws \<Rightarrow> ws) @ [workout])))"

fun reduceWorkouts :: "WorkoutIndex \<Rightarrow> Workout list \<Rightarrow> js_error + WorkoutIndex" where
  "reduceWorkouts acc [] = Inr acc"
| "reduceWorkouts acc (w # ws) =
     (case indexWorkout acc w of Inl e \<Rightarrow> Inl e | Inr acc' \<Rightarrow> reduceWorkouts acc' ws)"

definition workoutsByDate :: "Workout list \<Rightarrow> js_error + WorkoutIndex" where
  "workoutsByDate workouts = reduceWorkouts Map.empty workouts"

text \<open>\<^verbatim>\<open>Boolean(workoutsByDate[isoDate]?.length)\<close>, for a key that is not an inherited name.\<close>

definition hasEntry :: "WorkoutIndex \<Rightarrow> string \<Rightarrow> bool" where
  "hasEntry idx k = (case idx k of None \<Rightarrow> False | Some ws \<Rightarrow> length ws \<noteq> 0)"

section \<open>The calendar grid\<close>

record CalendarCell =
  isoDate :: string
  date :: Date
  inCurrentMonth :: bool
  hasWorkout :: bool
  isToday :: bool
  label :: string

text \<open>
  \<^verbatim>\<open>Array.from({ length: 42 }).map(f)\<close> calls \<open>f\<close> on the indices 0 to 41 in order; an
  exception in a call ends the whole computation.
\<close>

fun mapE :: "('a \<Rightarrow> 'e + 'b) \<Rightarrow> 'a list \<Rightarrow> 'e + 'b list" where
  "mapE f [] = Inr []"
| "mapE f (x # xs) =
     (case f x of
        Inl e \<Rightarrow> Inl e
      | Inr y \<Rightarrow> (case mapE f xs of Inl e \<Rightarrow> Inl e | Inr ys \<Rightarrow> Inr (y # ys)))"

text \<open>
  The callback of the map, for the cell \<open>index\<close>. It reads the clock itself:
  \<^verbatim>\<open>const today = new Date()\<close> is evaluated once in every call, and \<open>clock index\<close> is the
  time value that this reading returns in the call for \<open>index\<close>. The formatter of the
  label, an \<^verbatim>\<open>Intl.DateTimeFormat\<close> of the locale \<^verbatim>\<open>ru-RU\<close>, is the parameter
  \<open>dayLabelFormatter\<close>.
\<close>

definition calendarCell ::
  "int \<Rightarrow> (Date \<Rightarrow> string) \<Rightarrow> Date \<Rightarrow> WorkoutIndex \<Rightarrow> (nat \<Rightarrow> int) \<Rightarrow> Date \<Rightarrow> nat
     \<Rightarrow> js_error + CalendarCell" where
  "calendarCell tza dayLabelFormatter displayedMonth idx clock gridStart index =
     (let dt = newDate tza (getFullYear tza gridStart) (getMonth tza gridStart)
                 (num_add (getDate tza gridStart) (Some (int index)))
      in case toISOString dt of
           Inl e \<Rightarrow> Inl e
         | Inr s \<Rightarrow>
             (let iso = take 10 s;
                  today = TimeValue (clock index);
                  isToday' =
                    (strict_eq (getFullYear tza dt) (getFullYear tza today) \<and>
                     strict_eq (getMonth tza dt) (getMonth tza today) \<and>
                     strict_eq (getDate tza dt) (getDate tza today))
              in Inr \<lparr> isoDate = iso,
                       date = dt,
                       inCurrentMonth =
                         (strict_eq (getMonth tza dt) (getMonth tza displayedMonth) \<and>
                          strict_eq (getFullYear tza dt) (getFullYear tza displayedMonth)),
                       hasWorkout = hasEntry idx iso,
                       isToday = isToday',
                       label = dayLabelFormatter dt \<rparr>))"

definition gridStartOf :: "int \<Rightarrow> Date \<Rightarrow> Date" where
  "gridStartOf tza displayedMonth =
     (let startOfMonth =
            newDate tza (getFullYear tza displayedMonth) (getMonth tza displayedMonth) (Some 1);
          startOffset = num_rem (num_add (getDay tza startOfMonth) (Some 6)) (Some 7)
      in setDate tza (copyDate startOfMonth) (num_sub (getDate tza startOfMonth) startOffset))"

definition calendarCells ::
  "int \<Rightarrow> (Date \<Rightarrow> string) \<Rightarrow> Date \<Rightarrow> WorkoutIndex \<Rightarrow> (nat \<Rightarrow> int)
     \<Rightarrow> js_error + CalendarCell list" where
  "calendarCells tza dayLabelFormatter displayedMonth idx clock =
     mapE (calendarCell tza dayLabelFormatter displayedMonth idx clock
             (gridStartOf tza displayedMonth))
          [0..<42]"

section \<open>Month navigation\<close>

definition goToPreviousMonth :: "int \<Rightarrow> Date \<Rightarrow> Date" where
  "goToPreviousMonth tza current =
     newDate tza (getFullYear tza current) (num_sub (getMonth tza current) (Some 1)) (Some 1)"

definition goToNextMonth :: "int \<Rightarrow> Date \<Rightarrow> Date" where
  "goToNextMonth tza current =
     newDate tza (getFullYear tza current) (num_add (getMonth tza current) (Some 1)) (Some 1)"

section \<open>The view state\<close>

datatype ThemeMode = Dark | Light

text \<open>
  A palette is a plain object from style variable names to colours. Its entries are
  kept in insertion order; assigning to a key that is present replaces the value in
  place (\<open>AList.update\<close>).
\<close>

type_synonym Palette = "(string \<times> string) list"

text \<open>
  The part of the document that the theme code writes: the custom properties of
  \<^verbatim>\<open>document.documentElement.style\<close>, the two colours of \<^verbatim>\<open>document.body.style\<close>, the
  attribute \<^verbatim>\<open>data-tg-color-scheme\<close> and the \<^verbatim>\<open>color-scheme\<close> property of the root.
  A value that is written is taken to be stored as it is given (it is a well-formed
  colour); \<^verbatim>\<open>setProperty\<close> with the empty string removes the property.
\<close>

record Document =
  rootStyle :: "string \<rightharpoonup> string"
  bodyBackgroundColor :: "string option"
  bodyColor :: "string option"
  tgColorScheme :: "ThemeMode option"
  rootColorScheme :: "ThemeMode option"

text \<open>
  The failure text that the status line of the calendar shows. The two literals of the
  source are Russian sentences: the first, "could not load the workouts:", is followed by
  the HTTP status; the second says "unknown loading error".
\<close>

datatype StatusText = LoadFailed int | Message string | UnknownLoadError

record AppState =
  theme :: ThemeMode
  themeRef :: ThemeMode
  workouts :: "Workout list"
  fetchError :: "StatusText option"
  isLoadingWorkouts :: bool
  selectedDate :: "string option"
  displayedMonth :: Date
  touchStartXRef :: "real option"
  systemThemeRef :: Palette
  document :: Document
  fetchPending :: bool

text \<open>
  \<open>fetchPending\<close> is the control state of the one call of \<^verbatim>\<open>loadWorkouts\<close> that the
  mount effect starts: true until the promise chain of that call has run to its end.
\<close>

section \<open>Gestures\<close>

definition handleTouchStart :: "real list \<Rightarrow> AppState \<Rightarrow> AppState" where
  "handleTouchStart touches s =
     s\<lparr>touchStartXRef := (case touches of [] \<Rightarrow> None | clientX # _ \<Rightarrow> Some clientX)\<rparr>"

text \<open>
  \<^verbatim>\<open>delta\<close> is one subtraction of doubles, the first changed touch, or 0 when there is
  none, minus the recorded start. With a changed touch the difference is rounded
  (\<open>doubleMinus\<close>); with none the left operand is the constant 0, and \<open>0 - x\<close> is
  exact for every double \<open>x\<close>.
\<close>

definition handleTouchEnd :: "int \<Rightarrow> real list \<Rightarrow> AppState \<Rightarrow> AppState" where
  "handleTouchEnd tza changedTouches s =
     (case touchStartXRef s of
        None \<Rightarrow> s
      | Some startX \<Rightarrow>
          (let delta = (case changedTouches of
                          [] \<Rightarrow> Finite (0 - startX)
                        | clientX # _ \<Rightarrow> doubleMinus clientX startX);
               threshold = 40;
               s' = (if greaterThan delta threshold
                     then s\<lparr>displayedMonth := goToPreviousMonth tza (displayedMonth s)\<rparr>
                     else if lessThan delta (- threshold)
                     then s\<lparr>displayedMonth := goToNextMonth tza (displayedMonth s)\<rparr>
                     else s)
           in s'\<lparr>touchStartXRef := None\<rparr>))"

section \<open>Selection\<close>

definition handleDaySelect :: "string \<Rightarrow> bool \<Rightarrow> AppState \<Rightarrow> AppState" where
  "handleDaySelect isoDate' hasWorkout' s =
     (if \<not> hasWorkout' then s else s\<lparr>selectedDate := Some isoDate'\<rparr>)"

definition closeModal :: "AppState \<Rightarrow> AppState" where
  "closeModal s = s\<lparr>selectedDate := None\<rparr>"

text \<open>
  The only call of \<^verbatim>\<open>handleDaySelect\<close> is the click handler of a cell of the rendered
  grid, with the \<^verbatim>\<open>isoDate\<close> and \<^verbatim>\<open>hasWorkout\<close> of that cell; the button is disabled when
  \<^verbatim>\<open>hasWorkout\<close> is false. The grid that is on screen is the one computed from the
  current month and the current workouts; when its computation raises, nothing is
  rendered and there is nothing to click.
\<close>

definition renderedCells ::
  "int \<Rightarrow> (Date \<Rightarrow> string) \<Rightarrow> (nat \<Rightarrow> int) \<Rightarrow> AppState \<Rightarrow> js_error + CalendarCell list" where
  "renderedCells tza dayLabelFormatter clock s =
     (case workoutsByDate (workouts s) of
        Inl e \<Rightarrow> Inl e
      | Inr idx \<Rightarrow> calendarCells tza dayLabelFormatter (displayedMonth s) idx clock)"

definition clickCell ::
  "int \<Rightarrow> (Date \<Rightarrow> string) \<Rightarrow> (nat \<Rightarrow> int) \<Rightarrow> nat \<Rightarrow> AppState \<Rightarrow> AppState" where
  "clickCell tza dayLabelFormatter clock i s =
     (case renderedCells tza dayLabelFormatter clock s of
        Inl e \<Rightarrow> s
      | Inr cells \<Rightarrow>
          (if i < length cells \<and> hasWorkout (cells ! i)
           then handleDaySelect (isoDate (cells ! i)) (hasWorkout (cells ! i)) s
           else s))"

section \<open>Theme\<close>

record WebAppThemeParams =
  bg_color :: "string option"
  text_color :: "string option"
  hint_color :: "string option"
  link_color :: "string option"
  button_color :: "string option"
  button_text_color :: "string option"
  secondary_bg_color :: "string option"

text \<open>The host object: the fields of \<^verbatim>\<open>WebApp\<close> that the theme code reads.\<close>

record WebApp =
  colorScheme :: ThemeMode
  themeParams :: WebAppThemeParams

definition initialSystemTheme :: Palette where
  "initialSystemTheme =
     [(''--tg-theme-bg-color'', ''#0b1120''),
      (''--tg-theme-text-color'', ''#f8fafc''),
      (''--tg-theme-hint-color'', ''#94a3b8''),
      (''--tg-theme-button-color'', ''#2a9df4''),
      (''--tg-theme-button-text-color'', ''#ffffff''),
      (''--tg-theme-secondary-bg-color'', ''rgba(15, 23, 42, 0.5)''),
      (''--tg-theme-link-color'', ''#38bdf8'')]"

definition lightTheme :: Palette where
  "lightTheme =
     [(''--tg-theme-bg-color'', ''#f8fafc''),
      (''--tg-theme-text-color'', ''#0f172a''),
      (''--tg-theme-hint-color'', ''#64748b''),
      (''--tg-theme-button-color'', ''#2563eb''),
      (''--tg-theme-button-text-color'', ''#ffffff''),
      (''--tg-theme-secondary-bg-color'', ''#e2e8f0''),
      (''--tg-theme-link-color'', ''#2563eb'')]"

text \<open>An optional string is truthy when it is present and not empty.\<close>

definition truthy :: "string option \<Rightarrow> bool" where
  "truthy v = (case v of None \<Rightarrow> False | Some x \<Rightarrow> x \<noteq> [])"

definition setProperty :: "string \<Rightarrow> string \<Rightarrow> (string \<rightharpoonup> string) \<Rightarrow> (string \<rightharpoonup> string)" where
  "setProperty k v style = (if v = [] then style(k := None) else style(k \<mapsto> v))"

definition applyCssVariables :: "Palette \<Rightarrow> Document \<Rightarrow> Document" where
  "applyCssVariables variables doc =
     doc\<lparr>rootStyle := fold (\<lambda>(k, v). setProperty k v) variables (rootStyle doc)\<rparr>"

definition assign :: "string \<Rightarrow> string option \<Rightarrow> Palette \<Rightarrow> Palette" where
  "assign k v nextTheme = (if truthy v then AList.update k (the v) nextTheme else nextTheme)"

definition extractThemeFromWebApp :: "Palette \<Rightarrow> WebAppThemeParams \<Rightarrow> Palette" where
  "extractThemeFromWebApp current p =
     (assign ''--tg-theme-link-color'' (link_color p)
      (assign ''--tg-theme-secondary-bg-color'' (secondary_bg_color p)
      (assign ''--tg-theme-button-text-color'' (button_text_color p)
      (assign ''--tg-theme-button-color'' (button_color p)
      (assign ''--tg-theme-hint-color'' (hint_color p)
      (assign ''--tg-theme-text-color'' (text_color p)
      (assign ''--tg-theme-bg-color'' (bg_color p) current)))))))"

text \<open>\<^verbatim>\<open>applyThemeParams\<close> of \<^verbatim>\<open>src/lib/twa-sdk.ts\<close>, which the build aliases to the SDK import.\<close>

definition assignments :: "WebAppThemeParams \<Rightarrow> (string \<times> string option) list" where
  "assignments p =
     [(''--tg-theme-bg-color'', bg_color p),
      (''--tg-theme-secondary-bg-color'', secondary_bg_color p),
      (''--tg-theme-text-color'', text_color p),
      (''--tg-theme-hint-color'', hint_color p),
      (''--tg-theme-link-color'', link_color p),
      (''--tg-theme-button-color'', button_color p),
      (''--tg-theme-button-text-color'', button_text_color p)]"

definition applyThemeParams :: "WebApp \<Rightarrow> Document \<Rightarrow> Document" where
  "applyThemeParams host doc =
     (let p = themeParams host;
          root = fold (\<lambda>(cssVariable, v) style.
                          if truthy v then setProperty cssVariable (the v) style else style)
                   (assignments p) (rootStyle doc)
      in doc\<lparr> rootStyle := root,
               bodyBackgroundColor :=
                 (if truthy (bg_color p) then bg_color p else bodyBackgroundColor doc),
               bodyColor := (if truthy (text_color p) then text_color p else bodyColor doc),
               tgColorScheme := Some (colorScheme host),
               rootColorScheme := Some (colorScheme host) \<rparr>)"

definition handleThemeChange :: "WebApp \<Rightarrow> AppState \<Rightarrow> AppState" where
  "handleThemeChange host s =
     (let doc1 = applyThemeParams host (document s);
          cached = extractThemeFromWebApp (systemThemeRef s) (themeParams host);
          doc2 = (if themeRef s = Dark then applyCssVariables cached doc1 else doc1)
      in s\<lparr>systemThemeRef := cached, document := doc2\<rparr>)"

text \<open>
  \<^verbatim>\<open>toggleTheme\<close> sets the state \<^verbatim>\<open>theme\<close>; the effect that depends on \<^verbatim>\<open>theme\<close> then
  applies the palette of the new mode and stores the mode in \<^verbatim>\<open>themeRef\<close>. The two are one
  step of the model.
\<close>

definition themeEffect :: "AppState \<Rightarrow> AppState" where
  "themeEffect s =
     s\<lparr> document :=
          (if theme s = Light then applyCssVariables lightTheme (document s)
           else applyCssVariables (systemThemeRef s) (document s)),
        themeRef := theme s \<rparr>"

definition toggleTheme :: "AppState \<Rightarrow> AppState" where
  "toggleTheme s = themeEffect (s\<lparr>theme := (if theme s = Dark then Light else Dark)\<rparr>)"

section \<open>Loading the workouts\<close>

text \<open>
  What a rejected promise carries: a \<^verbatim>\<open>DOMException\<close> with its name and message, any
  other \<^verbatim>\<open>Error\<close> with its message, or a value that is not an \<^verbatim>\<open>Error\<close>. A
  \<^verbatim>\<open>DOMException\<close> is an instance of \<^verbatim>\<open>Error\<close> as well.
\<close>

datatype Thrown = DOMException string StatusText | Error StatusText | OtherValue

definition isAbortError :: "Thrown \<Rightarrow> bool" where
  "isAbortError e = (case e of DOMException name m \<Rightarrow> name = ''AbortError'' | _ \<Rightarrow> False)"

definition messageOf :: "Thrown \<Rightarrow> StatusText" where
  "messageOf e =
     (case e of DOMException name m \<Rightarrow> m | Error m \<Rightarrow> m | OtherValue \<Rightarrow> UnknownLoadError)"

record Response =
  ok :: bool
  status :: int
  json :: "Thrown + Workout list"

datatype FetchResult = Fulfilled Response | Rejected Thrown

text \<open>
  The moment at which the cleanup of the effect calls \<^verbatim>\<open>controller.abort()\<close>, relative to
  the two \<^verbatim>\<open>await\<close>s of \<^verbatim>\<open>loadWorkouts\<close>. By the Fetch standard a request whose signal is
  aborted rejects with a \<^verbatim>\<open>DOMException\<close> named \<^verbatim>\<open>AbortError\<close>, and so does the reading of
  the body of its response, whatever the network would have delivered. The message of
  the exception is the browser's own.
\<close>

datatype AbortPoint =
  NotAborted | AbortedWhileFetching StatusText | AbortedWhileReadingBody StatusText

definition awaitFetch :: "AbortPoint \<Rightarrow> FetchResult \<Rightarrow> FetchResult" where
  "awaitFetch ab net =
     (case ab of
        AbortedWhileFetching m \<Rightarrow> Rejected (DOMException ''AbortError'' m)
      | _ \<Rightarrow> net)"

definition awaitJson :: "AbortPoint \<Rightarrow> Response \<Rightarrow> Thrown + Workout list" where
  "awaitJson ab response =
     (case ab of
        AbortedWhileReadingBody m \<Rightarrow> Inl (DOMException ''AbortError'' m)
      | _ \<Rightarrow> json response)"

text \<open>The \<^verbatim>\<open>try\<close> block after \<^verbatim>\<open>setIsLoadingWorkouts(true)\<close>, up to the payload.\<close>

definition loadWorkouts_try :: "AbortPoint \<Rightarrow> FetchResult \<Rightarrow> Thrown + Workout list" where
  "loadWorkouts_try ab net =
     (case awaitFetch ab net of
        Rejected e \<Rightarrow> Inl e
      | Fulfilled response \<Rightarrow>
          (if \<not> ok response then Inl (Error (LoadFailed (status response)))
           else awaitJson ab response))"

definition loadWorkouts :: "AbortPoint \<Rightarrow> FetchResult \<Rightarrow> AppState \<Rightarrow> AppState" where
  "loadWorkouts ab net s =
     (let s1 = s\<lparr>isLoadingWorkouts := True\<rparr>;
          s2 = (case loadWorkouts_try ab net of
                  Inr payload \<Rightarrow> s1\<lparr>workouts := payload, fetchError := None\<rparr>
                | Inl e \<Rightarrow>
                    (if isAbortError e then s1
                     else s1\<lparr>fetchError := Some (messageOf e)\<rparr>))
      in s2\<lparr>isLoadingWorkouts := False, fetchPending := False\<rparr>)"

section \<open>Mounting and events\<close>

definition emptyDocument :: Document where
  "emptyDocument =
     \<lparr> rootStyle = Map.empty, bodyBackgroundColor = None, bodyColor = None,
       tgColorScheme = None, rootColorScheme = None \<rparr>"

text \<open>
  The state after the first render and its effects, for the host object \<open>host\<close> and the
  clock reading \<open>now\<close> of the initialiser of \<^verbatim>\<open>displayedMonth\<close>.
\<close>

definition mount :: "int \<Rightarrow> WebApp \<Rightarrow> int \<Rightarrow> AppState" where
  "mount tza host now =
     (let mode = (if colorScheme host = Light then Light else Dark);
          today = TimeValue now;
          cached = extractThemeFromWebApp initialSystemTheme (themeParams host);
          doc1 = applyThemeParams host emptyDocument;
          doc2 = (if colorScheme host = Light then applyCssVariables lightTheme doc1
                  else applyCssVariables cached doc1)
      in themeEffect
           \<lparr> theme = mode, themeRef = mode, workouts = [], fetchError = None,
             isLoadingWorkouts = True, selectedDate = None,
             displayedMonth = newDate tza (getFullYear tza today) (getMonth tza today) (Some 1),
             touchStartXRef = None, systemThemeRef = cached, document = doc2,
             fetchPending = True \<rparr>)"

datatype Event =
    ThemeChanged WebApp
  | ToggleTheme
  | PreviousMonth
  | NextMonth
  | TouchStart "real list"
  | TouchEnd "real list"
  | DayClick "nat \<Rightarrow> int" nat
  | CloseModal
  | FetchSettled AbortPoint FetchResult

fun step :: "int \<Rightarrow> (Date \<Rightarrow> string) \<Rightarrow> Event \<Rightarrow> AppState \<Rightarrow> AppState" where
  "step tza fmt (ThemeChanged host) s = handleThemeChange host s"
| "step tza fmt ToggleTheme s = toggleTheme s"
| "step tza fmt PreviousMonth s = s\<lparr>displayedMonth := goToPreviousMonth tza (displayedMonth s)\<rparr>"
| "step tza fmt NextMonth s = s\<lparr>displayedMonth := goToNextMonth tza (displayedMonth s)\<rparr>"
| "step tza fmt (TouchStart touches) s = handleTouchStart touches s"
| "step tza fmt (TouchEnd changedTouches) s = handleTouchEnd tza changedTouches s"
| "step tza fmt (DayClick clock i) s = clickCell tza fmt clock i s"
| "step tza fmt CloseModal s = closeModal s"
| "step tza fmt (FetchSettled ab net) s = (if fetchPending s then loadWorkouts ab net s else s)"

inductive reachable :: "int \<Rightarrow> (Date \<Rightarrow> string) \<Rightarrow> AppState \<Rightarrow> bool"
  for tza :: int and fmt :: "Date \<Rightarrow> string" where
  reach_mount: "reachable tza fmt (mount tza host now)"
| reach_step: "reachable tza fmt s \<Longrightarrow> reachable tza fmt (step tza fmt e s)"

text \<open>
  The host object that \<^verbatim>\<open>twa-sdk.ts\<close> substitutes when the page runs outside the host
  (\<^verbatim>\<open>fallbackWebApp\<close> with \<^verbatim>\<open>fallbackTheme\<close>).
\<close>

definition fallbackTheme :: WebAppThemeParams where
  "fallbackTheme =
     \<lparr> bg_color = Some ''#ffffff'',
       text_color = Some ''#0f172a'',
       hint_color = Some ''#64748b'',
       link_color = Some ''#2a9df4'',
       button_color = Some ''#2a9df4'',
       button_text_color = Some ''#ffffff'',
       secondary_bg_color = Some ''#f1f5f9'' \<rparr>"

definition fallbackWebApp :: WebApp where
  "fallbackWebApp = \<lparr> colorScheme = Light, themeParams = fallbackTheme \<rparr>"

section \<open>Notions used in the statements\<close>

text \<open>The date object for local midnight at the start of day number \<open>D\<close>.\<close>

definition localMidnight :: "int \<Rightarrow> int \<Rightarrow> Date" where
  "localMidnight tza D = TimeValue (UTC tza (MakeDate D 0))"

text \<open>Offsets of at most one day in either direction; every zone in use is within.\<close>

definition zoneOk :: "int \<Rightarrow> bool" where
  "zoneOk tza \<longleftrightarrow> \<bar>tza\<bar> \<le> msPerDay"

definition dayOk :: "int \<Rightarrow> bool" where
  "dayOk D \<longleftrightarrow> \<bar>D\<bar> \<le> 99999999"

definition leapOf :: "int \<Rightarrow> int" where
  "leapOf y = (if DaysInYear y = 366 then 1 else 0)"

definition isoOf :: "Date \<Rightarrow> string" where
  "isoOf v = (case toISOString v of Inl _ \<Rightarrow> [] | Inr s \<Rightarrow> take 10 s)"

text \<open>The cell that the grid holds at \<open>index\<close> when its first day is day number \<open>G\<close>.\<close>

definition cellAt ::
  "int \<Rightarrow> (Date \<Rightarrow> string) \<Rightarrow> Date \<Rightarrow> WorkoutIndex \<Rightarrow> (nat \<Rightarrow> int) \<Rightarrow> int \<Rightarrow> nat
     \<Rightarrow> CalendarCell" where
  "cellAt tza fmt dm idx clock G index =
     (let dt = localMidnight tza (G + int index); today = TimeValue (clock index)
      in \<lparr> isoDate = isoOf dt,
           date = dt,
           inCurrentMonth =
             (strict_eq (getMonth tza dt) (getMonth tza dm) \<and>
              strict_eq (getFullYear tza dt) (getFullYear tza dm)),
           hasWorkout = hasEntry idx (isoOf dt),
           isToday =
             (strict_eq (getFullYear tza dt) (getFullYear tza today) \<and>
              strict_eq (getMonth tza dt) (getMonth tza today) \<and>
              strict_eq (getDate tza dt) (getDate tza today)),
           label = fmt dt \<rparr>)"

text \<open>A host that supplies one colour only, in its dark scheme.\<close>

definition redButtonHost :: WebApp where
  "redButtonHost =
     \<lparr> colorScheme = Dark,
       themeParams =
         \<lparr> bg_color = None, text_color = None, hint_color = None, link_color = None,
           button_color = Some ''#ff0000'', button_text_color = None,
           secondary_bg_color = None \<rparr> \<rparr>"

text \<open>
  The invariant of the selection: a selected date has a non-empty entry in the index
  of the current workouts.
\<close>

definition selectionInvariant :: "AppState \<Rightarrow> bool" where
  "selectionInvariant s =
     (case selectedDate s of
        None \<Rightarrow> True
      | Some d \<Rightarrow>
          (case workoutsByDate (workouts s) of Inl e \<Rightarrow> False | Inr idx \<Rightarrow> hasEntry idx d))"

text \<open>
  The inductive form of the invariant: while the request is pending, no workout has
  been stored yet.
\<close>

definition selectionInv :: "AppState \<Rightarrow> bool" where
  "selectionInv s \<longleftrightarrow> selectionInvariant s \<and> (fetchPending s \<longrightarrow> workouts s = [])"

text \<open>
  What holds of the theme in every reachable state: the reference follows the mode, the
  cached palette has the seven keys of the built-in palette, in their order, with
  non-empty values, and in dark mode the style variables carry the cached palette.
\<close>

definition themeInvariant :: "AppState \<Rightarrow> bool" where
  "themeInvariant s \<longleftrightarrow>
     themeRef s = theme s \<and>
     map fst (systemThemeRef s) = map fst initialSystemTheme \<and>
     (\<forall>(k, v) \<in> set (systemThemeRef s). v \<noteq> []) \<and>
     (theme s = Dark \<longrightarrow>
        (\<forall>(k, v) \<in> set (systemThemeRef s). rootStyle (document s) k = Some v))"

text \<open>The number of the month that a date lies in, counted from January of year 0.\<close>

definition monthIndex :: "int \<Rightarrow> Date \<Rightarrow> number" where
  "monthIndex tza v =
     (case (getFullYear tza v, getMonth tza v) of
        (Some y, Some m) \<Rightarrow> Some (12 * y + m)
      | _ \<Rightarrow> None)"

text \<open>
  The zero-padded \<^verbatim>\<open>YYYY-MM-DD\<close> string of a calendar day, as the specification words
  it, for a year of four digits and a month counted from 0.
\<close>

definition isoDayString :: "int \<Rightarrow> int \<Rightarrow> int \<Rightarrow> string" where
  "isoDayString y m d =
     digits 4 (nat y) @ ''-'' @ digits 2 (nat (m + 1)) @ ''-'' @ digits 2 (nat d)"

section \<open>The calendar of the date model\<close>

lemma div_bounds:
  assumes "0 < (k::int)"
  shows "k * (x div k) \<le> x" and "x < k * (x div k) + k"
proof -
  have e: "x = k * (x div k) + x mod k" by simp
  have "0 \<le> x mod k" "x mod k < k" using assms by simp_all
  then show "k * (x div k) \<le> x" and "x < k * (x div k) + k" using e by linarith+
qed

lemma DayFromYear_approx:
  "400 * DayFromYear y \<le> 146097 * y - 287810501"
  "146097 * y - 287811596 \<le> 400 * DayFromYear y"
proof -
  define a b c where "a = (y - 1969) div 4" and "b = (y - 1901) div 100"
    and "c = (y - 1601) div 400"
  have a: "4 * a \<le> y - 1969" "y - 1969 < 4 * a + 4"
    unfolding a_def using div_bounds [of 4 "y - 1969"] by simp_all
  have b: "100 * b \<le> y - 1901" "y - 1901 < 100 * b + 100"
    unfolding b_def using div_bounds [of 100 "y - 1901"] by simp_all
  have c: "400 * c \<le> y - 1601" "y - 1601 < 400 * c + 400"
    unfolding c_def using div_bounds [of 400 "y - 1601"] by simp_all
  have e: "DayFromYear y = 365 * y - 719050 + a - b + c"
    unfolding DayFromYear_def a_def b_def c_def by (simp add: algebra_simps)
  show "400 * DayFromYear y \<le> 146097 * y - 287810501"
    using a b c e by linarith
  show "146097 * y - 287811596 \<le> 400 * DayFromYear y"
    using a b c e by linarith
qed

lemma div_succ: 
  assumes "0 < (k::int)"
  shows "(x + 1) div k = x div k + (if (x + 1) mod k = 0 then 1 else 0)"
proof -
  have e: "x = k * (x div k) + x mod k" by simp
  have r: "0 \<le> x mod k" "x mod k < k" using assms by simp_all
  show ?thesis
  proof (cases "x mod k = k - 1")
    case True
    have "k * (x div k + 1) = k * (x div k) + k" by (simp add: distrib_left)
    with True have "x + 1 = k * (x div k + 1)" using e by linarith
    then have "(x + 1) div k = x div k + 1 \<and> (x + 1) mod k = 0"
      using assms by (metis nonzero_mult_div_cancel_left less_irrefl mod_mult_self1_is_0)
    then show ?thesis by simp
  next
    case False
    then have lt: "x mod k + 1 < k" using r by linarith
    have "x + 1 = k * (x div k) + (x mod k + 1)" using e by linarith
    then have "(x + 1) div k = x div k \<and> (x + 1) mod k = x mod k + 1"
      using lt r assms
      by (metis add_nonneg_nonneg div_mult_self2 div_pos_pos_trivial mod_mult_self2 mod_pos_pos_trivial add.commute add_0 less_irrefl zero_le_one)
    then show ?thesis using r by simp
  qed
qed

lemma mod_shift:
  "((y::int) - 1968) mod 4 = 0 \<longleftrightarrow> y mod 4 = 0"
  "((y::int) - 1900) mod 100 = 0 \<longleftrightarrow> y mod 100 = 0"
  "((y::int) - 1600) mod 400 = 0 \<longleftrightarrow> y mod 400 = 0"
proof -
  have "(4::int) dvd 1968" "(100::int) dvd 1900" "(400::int) dvd 1600" by simp_all
  then show "((y::int) - 1968) mod 4 = 0 \<longleftrightarrow> y mod 4 = 0"
    "((y::int) - 1900) mod 100 = 0 \<longleftrightarrow> y mod 100 = 0"
    "((y::int) - 1600) mod 400 = 0 \<longleftrightarrow> y mod 400 = 0"
    by (simp_all only: mod_eq_0_iff_dvd dvd_diff_left_iff)
qed

lemma mod_chain:
  "(y::int) mod 100 = 0 \<Longrightarrow> y mod 4 = 0"
  "(y::int) mod 400 = 0 \<Longrightarrow> y mod 100 = 0"
proof -
  have k: "(4::int) dvd 100" "(100::int) dvd 400" by simp_all
  show "y mod 4 = 0" if "y mod 100 = 0"
    using that dvd_trans [OF k(1), of y] by (simp only: mod_eq_0_iff_dvd)
  show "y mod 100 = 0" if "y mod 400 = 0"
    using that dvd_trans [OF k(2), of y] by (simp only: mod_eq_0_iff_dvd)
qed

lemma DayFromYear_step: "DayFromYear (y + 1) = DayFromYear y + DaysInYear y"
proof -
  have s: "y + 1 - 1969 = (y - 1969) + 1" "y + 1 - 1901 = (y - 1901) + 1"
    "y + 1 - 1601 = (y - 1601) + 1" "y - 1969 + 1 = y - 1968" "y - 1901 + 1 = y - 1900"
    "y - 1601 + 1 = y - 1600" by simp_all
  have a: "(y + 1 - 1969) div 4 = (y - 1969) div 4 + (if y mod 4 = 0 then 1 else 0)"
    unfolding s(1) using div_succ [of 4 "y - 1969"] by (simp only: s mod_shift)
  have b: "(y + 1 - 1901) div 100 = (y - 1901) div 100 + (if y mod 100 = 0 then 1 else 0)"
    unfolding s(2) using div_succ [of 100 "y - 1901"] by (simp only: s mod_shift)
  have c: "(y + 1 - 1601) div 400 = (y - 1601) div 400 + (if y mod 400 = 0 then 1 else 0)"
    unfolding s(3) using div_succ [of 400 "y - 1601"] by (simp only: s mod_shift)
  have d: "365 * (y + 1 - 1970) = 365 * (y - 1970) + 365" by simp
  show ?thesis
    unfolding DayFromYear_def DaysInYear_def a b c d
    using mod_chain [of y] by auto
qed

lemma DaysInYear_range: "365 \<le> DaysInYear y \<and> DaysInYear y \<le> 366"
  by (simp add: DaysInYear_def)

lemma DayFromYear_mono_aux: "0 \<le> k \<Longrightarrow> DayFromYear y + 365 * k \<le> DayFromYear (y + k)"
proof (induction k rule: int_ge_induct)
  case base
  then show ?case by simp
next
  case (step i)
  have "DayFromYear (y + (i + 1)) = DayFromYear (y + i) + DaysInYear (y + i)"
    using DayFromYear_step [of "y + i"] by (simp add: add.assoc)
  moreover have "365 * (i + 1) = 365 * i + 365" by simp
  ultimately show ?case using step DaysInYear_range [of "y + i"] by linarith
qed

lemma DayFromYear_mono: "y \<le> y' \<Longrightarrow> DayFromYear y \<le> DayFromYear y'"
  using DayFromYear_mono_aux [of "y' - y" y] by simp

lemma YearFromDay_bounds:
  "DayFromYear (YearFromDay d) \<le> d \<and> d < DayFromYear (YearFromDay d + 1)"
proof -
  define y where "y = 1970 + (400 * d) div 146097"
  have q: "146097 * ((400 * d) div 146097) \<le> 400 * d"
    "400 * d < 146097 * ((400 * d) div 146097) + 146097"
    using div_bounds [of 146097 "400 * d"] by simp_all
  have e1: "146097 * y - 287811090 \<le> 400 * d"
    and e2: "400 * d < 146097 * y - 287811090 + 146097"
  proof -
    have "146097 * y = 287811090 + 146097 * ((400 * d) div 146097)"
      unfolding y_def by (simp add: distrib_left)
    then show "146097 * y - 287811090 \<le> 400 * d"
      and "400 * d < 146097 * y - 287811090 + 146097"
      using q by linarith+
  qed
  have lo: "DayFromYear (y - 1) \<le> d"
  proof -
    have "146097 * (y - 1) = 146097 * y - 146097" by simp
    then show ?thesis using DayFromYear_approx(1) [of "y - 1"] e1 by linarith
  qed
  have hi: "d < DayFromYear (y + 2)"
  proof -
    have "146097 * (y + 2) = 146097 * y + 292194" by simp
    then show ?thesis using DayFromYear_approx(2) [of "y + 2"] e2 by linarith
  qed
  have s: "y + 1 + 1 = y + 2" "y - 1 + 1 = y" by simp_all
  show ?thesis
    unfolding YearFromDay_def y_def [symmetric] Let_def
    using lo hi by (auto simp: s)
qed

lemma YearFromDay_unique:
  assumes "DayFromYear y \<le> d" and "d < DayFromYear (y + 1)"
  shows "YearFromDay d = y"
proof (rule ccontr)
  assume n: "YearFromDay d \<noteq> y"
  let ?z = "YearFromDay d"
  from YearFromDay_bounds [of d] have b: "DayFromYear ?z \<le> d" "d < DayFromYear (?z + 1)"
    by simp_all
  from n consider "?z + 1 \<le> y" | "y + 1 \<le> ?z" by linarith
  then show False
  proof cases
    case 1
    then have "DayFromYear (?z + 1) \<le> DayFromYear y" by (rule DayFromYear_mono)
    with b assms show False by linarith
  next
    case 2
    then have "DayFromYear (y + 1) \<le> DayFromYear ?z" by (rule DayFromYear_mono)
    with b assms show False by linarith
  qed
qed


lemma MonthStartDay_range:
  "0 \<le> m \<Longrightarrow> m \<le> 11 \<Longrightarrow> 0 \<le> MonthStartDay m (leapOf y) \<and> MonthStartDay m (leapOf y) + 28 \<le> DaysInYear y"
  unfolding MonthStartDay_def leapOf_def using DaysInYear_range [of y] by auto

lemma fields_of_MakeDay:
  fixes y :: int
  assumes m: "0 \<le> m" "m \<le> 11" and d: "1 \<le> dt" "dt \<le> 28"
  defines "D \<equiv> DayFromYear y + MonthStartDay m (leapOf y) + dt - 1"
  shows "YearFromDay D = y" and "MonthFromDay D = m" and "DateFromDay D = dt"
proof -
  have r: "0 \<le> MonthStartDay m (leapOf y)" "MonthStartDay m (leapOf y) + 28 \<le> DaysInYear y"
    using MonthStartDay_range [OF m, of y] by simp_all
  have "DayFromYear y \<le> D" "D < DayFromYear (y + 1)"
    unfolding D_def DayFromYear_step using r d by linarith+
  then show y: "YearFromDay D = y" by (rule YearFromDay_unique)
  have l: "InLeapYear D = leapOf y" by (simp add: InLeapYear_def leapOf_def y)
  have w: "DayWithinYear D = MonthStartDay m (leapOf y) + dt - 1"
    by (simp add: DayWithinYear_def y) (simp add: D_def)
  have c: "m = 0 \<or> m = 1 \<or> m = 2 \<or> m = 3 \<or> m = 4 \<or> m = 5 \<or> m = 6 \<or> m = 7 \<or> m = 8
    \<or> m = 9 \<or> m = 10 \<or> m = 11" using m by presburger
  have lp: "leapOf y = 0 \<or> leapOf y = 1" by (simp add: leapOf_def)
  show mm: "MonthFromDay D = m"
    unfolding MonthFromDay_def l w Let_def using c lp d
    by (elim disjE) (simp_all add: MonthStartDay_def)
  show "DateFromDay D = dt"
    unfolding DateFromDay_def mm l w by simp
qed

lemma MonthFromDay_range: "0 \<le> MonthFromDay D \<and> MonthFromDay D \<le> 11"
  by (simp add: MonthFromDay_def Let_def)

lemma MakeDay_normal:
  "0 \<le> m \<Longrightarrow> m \<le> 11 \<Longrightarrow> MakeDay y m dt = DayFromYear y + MonthStartDay m (leapOf y) + dt - 1"
  by (simp add: MakeDay_def leapOf_def Let_def div_pos_pos_trivial mod_pos_pos_trivial)

lemma MakeDay_shift: "MakeDay y m (dt + i) = MakeDay y m dt + i"
  by (simp add: MakeDay_def Let_def)

lemma MakeDay_normalise: "MakeDay y m dt = MakeDay (y + m div 12) (m mod 12) dt"
  by (simp add: MakeDay_def Let_def div_pos_pos_trivial mod_pos_pos_trivial)

lemma MakeDay_fields: "MakeDay (YearFromDay D) (MonthFromDay D) (DateFromDay D) = D"
  using MonthFromDay_range [of D]
  by (simp add: MakeDay_normal DateFromDay_def DayWithinYear_def InLeapYear_def leapOf_def)

lemma fields_of_first:
  "YearFromDay (MakeDay y m 1) = y + m div 12"
  "MonthFromDay (MakeDay y m 1) = m mod 12"
  "DateFromDay (MakeDay y m 1) = 1"
proof -
  have m: "0 \<le> m mod 12" "m mod 12 \<le> 11" by simp_all
  have e: "MakeDay y m 1 = DayFromYear (y + m div 12) + MonthStartDay (m mod 12) (leapOf (y + m div 12)) + 1 - 1"
    using MakeDay_normalise [of y m 1] MakeDay_normal [OF m, of "y + m div 12" 1] by simp
  show "YearFromDay (MakeDay y m 1) = y + m div 12"
    "MonthFromDay (MakeDay y m 1) = m mod 12"
    "DateFromDay (MakeDay y m 1) = 1"
    unfolding e using fields_of_MakeDay [OF m, of 1 "y + m div 12"] by simp_all
qed

lemma WeekDay_monday: "WeekDay (S - (WeekDay S + 6) mod 7) = 1"
  unfolding WeekDay_def by presburger


section \<open>Dates at local midnight\<close>

lemma TimeClip_day:
  "dayOk D \<Longrightarrow> zoneOk tza \<Longrightarrow> TimeClip (UTC tza (MakeDate D 0)) = localMidnight tza D"
  unfolding TimeClip_def localMidnight_def UTC_def MakeDate_def msPerDay_def dayOk_def zoneOk_def
  by auto

lemma local_day [simp]:
  "Day (LocalTime tza (UTC tza (MakeDate D 0))) = D"
  "TimeWithinDay (LocalTime tza (UTC tza (MakeDate D 0))) = 0"
  by (simp_all add: Day_def TimeWithinDay_def LocalTime_def UTC_def MakeDate_def msPerDay_def)

lemma getters_localMidnight:
  "getFullYear tza (localMidnight tza D) = Some (YearFromDay D)"
  "getMonth tza (localMidnight tza D) = Some (MonthFromDay D)"
  "getDate tza (localMidnight tza D) = Some (DateFromDay D)"
  "getDay tza (localMidnight tza D) = Some (WeekDay D)"
  by (simp_all add: getFullYear_def getMonth_def getDate_def getDay_def localMidnight_def)

lemma newDate_plain:
  assumes "\<not> (0 \<le> y \<and> y \<le> 99)" and "dayOk (MakeDay y m d)" and "zoneOk tza"
  shows "newDate tza (Some y) (Some m) (Some d) = localMidnight tza (MakeDay y m d)"
proof -
  have "MakeFullYear y = y" using assms(1) by (auto simp: MakeFullYear_def)
  then show ?thesis using assms by (simp add: newDate_def TimeClip_day)
qed

lemma newDate_fields:
  assumes "\<not> (0 \<le> YearFromDay D \<and> YearFromDay D \<le> 99)" and "dayOk (D + i)" and "zoneOk tza"
  shows "newDate tza (getFullYear tza (localMidnight tza D)) (getMonth tza (localMidnight tza D))
           (num_add (getDate tza (localMidnight tza D)) (Some i)) = localMidnight tza (D + i)"
proof -
  have "MakeDay (YearFromDay D) (MonthFromDay D) (DateFromDay D + i) = D + i"
    by (simp add: MakeDay_shift MakeDay_fields)
  then show ?thesis
    using assms by (simp add: getters_localMidnight num_add_def newDate_plain)
qed

lemma setDate_localMidnight:
  assumes "dayOk (MakeDay (YearFromDay D) (MonthFromDay D) d)" and "zoneOk tza"
  shows "setDate tza (localMidnight tza D) (Some d)
           = localMidnight tza (MakeDay (YearFromDay D) (MonthFromDay D) d)"
proof -
  have "setDate tza (localMidnight tza D) (Some d)
          = TimeClip (UTC tza (MakeDate (MakeDay (YearFromDay D) (MonthFromDay D) d) 0))"
    by (simp add: setDate_def localMidnight_def Let_def)
  then show ?thesis using assms by (simp add: TimeClip_day)
qed

lemma copyDate_localMidnight:
  "dayOk D \<Longrightarrow> zoneOk tza \<Longrightarrow> copyDate (localMidnight tza D) = localMidnight tza D"
  using TimeClip_day [of D tza] by (simp add: copyDate_def localMidnight_def)

lemma WeekDay_range: "0 \<le> WeekDay D \<and> WeekDay D \<le> 6"
  unfolding WeekDay_def by presburger

lemma startOffset_eq:
  "num_rem (num_add (Some (WeekDay D)) (Some 6)) (Some 7) = Some ((WeekDay D + 6) mod 7)"
  using WeekDay_range [of D] by (simp add: num_rem_def num_add_def sgn_if)

lemma gridStartOf_first:
  assumes f: "DateFromDay S = 1"
    and y: "\<not> (0 \<le> YearFromDay S \<and> YearFromDay S \<le> 99)"
    and r: "dayOk S" "dayOk (S - (WeekDay S + 6) mod 7)" and z: "zoneOk tza"
  shows "gridStartOf tza (localMidnight tza S) = localMidnight tza (S - (WeekDay S + 6) mod 7)"
proof -
  have s: "MakeDay (YearFromDay S) (MonthFromDay S) 1 = S"
    using MakeDay_fields [of S] f by simp
  have st: "newDate tza (Some (YearFromDay S)) (Some (MonthFromDay S)) (Some 1) = localMidnight tza S"
    using newDate_plain [OF y _ z, of "MonthFromDay S" 1] r s by simp
  have m: "MakeDay (YearFromDay S) (MonthFromDay S) (1 - (WeekDay S + 6) mod 7)
             = S - (WeekDay S + 6) mod 7"
    using MakeDay_shift [of "YearFromDay S" "MonthFromDay S" 1 "- ((WeekDay S + 6) mod 7)"] s
    by simp
  show ?thesis
    unfolding gridStartOf_def getters_localMidnight st Let_def startOffset_eq
    using r z f m
    by (simp add: copyDate_localMidnight num_sub_def setDate_localMidnight)
qed

lemma toISOString_localMidnight:
  "toISOString (localMidnight tza D) \<noteq> Inl e"
  by (simp add: toISOString_def localMidnight_def Let_def)

lemma calendarCell_localMidnight:
  assumes "\<not> (0 \<le> YearFromDay G \<and> YearFromDay G \<le> 99)" and "dayOk (G + int i)" and "zoneOk tza"
  shows "calendarCell tza fmt dm idx clock (localMidnight tza G) i
           = Inr (cellAt tza fmt dm idx clock G i)"
proof -
  have d: "newDate tza (getFullYear tza (localMidnight tza G)) (getMonth tza (localMidnight tza G))
           (num_add (getDate tza (localMidnight tza G)) (Some (int i))) = localMidnight tza (G + int i)"
    using assms by (rule newDate_fields)
  obtain s where s: "toISOString (localMidnight tza (G + int i)) = Inr s"
    using toISOString_localMidnight [of tza "G + int i"] by (cases "toISOString (localMidnight tza (G + int i))") auto
  show ?thesis
    unfolding calendarCell_def d by (simp add: s cellAt_def isoOf_def Let_def)
qed

lemma mapE_all_Inr: "(\<And>x. x \<in> set xs \<Longrightarrow> f x = Inr (g x)) \<Longrightarrow> mapE f xs = Inr (map g xs)"
  by (induction xs) simp_all

lemma calendarCells_of_gridStart:
  assumes g: "gridStartOf tza dm = localMidnight tza G"
    and y: "\<not> (0 \<le> YearFromDay G \<and> YearFromDay G \<le> 99)" and r: "dayOk G" "dayOk (G + 41)"
    and z: "zoneOk tza"
  shows "calendarCells tza fmt dm idx clock = Inr (map (cellAt tza fmt dm idx clock G) [0..<42])"
  unfolding calendarCells_def g
proof (rule mapE_all_Inr)
  fix i assume "i \<in> set [0..<42]"
  then have "dayOk (G + int i)" using r by (auto simp: dayOk_def)
  then show "calendarCell tza fmt dm idx clock (localMidnight tza G) i = Inr (cellAt tza fmt dm idx clock G i)"
    using y z by (simp add: calendarCell_localMidnight)
qed



section \<open>Ranges and anchors\<close>

lemma dayOk_year:
  assumes "- 271820 \<le> y" "y \<le> 275759" "- 200 \<le> k" "k \<le> 600"
  shows "dayOk (DayFromYear y + k)"
  unfolding dayOk_def using DayFromYear_approx [of y] assms by linarith

lemma MakeDay_as_year:
  "MakeDay y m d = DayFromYear (y + m div 12) + (MonthStartDay (m mod 12) (leapOf (y + m div 12)) + d - 1)"
  by (simp add: MakeDay_def leapOf_def Let_def)

lemma MonthStartDay_bounds: "0 \<le> MonthStartDay m (leapOf y) \<and> MonthStartDay m (leapOf y) \<le> 335"
  by (simp add: MonthStartDay_def leapOf_def)

lemma dayOk_MakeDay:
  assumes "- 271820 \<le> y + m div 12" "y + m div 12 \<le> 275759" "- 100 \<le> d" "d \<le> 100"
  shows "dayOk (MakeDay y m d)"
  unfolding MakeDay_as_year
  using MonthStartDay_bounds [of "m mod 12" "y + m div 12"] assms
  by (intro dayOk_year) linarith+

lemma newDate_first:
  assumes "\<not> (0 \<le> y \<and> y \<le> 99)" "- 271820 \<le> y + m div 12" "y + m div 12 \<le> 275759" "zoneOk tza"
  shows "newDate tza (Some y) (Some m) (Some 1) = localMidnight tza (MakeDay y m 1)"
    and "getFullYear tza (newDate tza (Some y) (Some m) (Some 1)) = Some (y + m div 12)"
    and "getMonth tza (newDate tza (Some y) (Some m) (Some 1)) = Some (m mod 12)"
    and "getDate tza (newDate tza (Some y) (Some m) (Some 1)) = Some 1"
proof -
  have "dayOk (MakeDay y m 1)" using assms by (intro dayOk_MakeDay) simp_all
  then show e: "newDate tza (Some y) (Some m) (Some 1) = localMidnight tza (MakeDay y m 1)"
    using assms by (intro newDate_plain) simp_all
  show "getFullYear tza (newDate tza (Some y) (Some m) (Some 1)) = Some (y + m div 12)"
    and "getMonth tza (newDate tza (Some y) (Some m) (Some 1)) = Some (m mod 12)"
    and "getDate tza (newDate tza (Some y) (Some m) (Some 1)) = Some 1"
    unfolding e by (simp_all add: getters_localMidnight fields_of_first)
qed

lemma month_back:
  assumes "0 \<le> (M::int)" "M \<le> 11"
  shows "(M + 1) div 12 + ((M + 1) mod 12 - 1) div 12 = 0" and "((M + 1) mod 12 - 1) mod 12 = M"
proof -
  consider "M = 11" | "M + 1 < 12" using assms by linarith
  then have "(M + 1) div 12 + ((M + 1) mod 12 - 1) div 12 = 0 \<and> ((M + 1) mod 12 - 1) mod 12 = M"
  proof cases
    case 1
    then show ?thesis by simp
  next
    case 2
    then show ?thesis using assms by (simp add: div_pos_pos_trivial mod_pos_pos_trivial)
  qed
  then show "(M + 1) div 12 + ((M + 1) mod 12 - 1) div 12 = 0" and "((M + 1) mod 12 - 1) mod 12 = M"
    by simp_all
qed

lemma month_step:
  assumes "0 \<le> (M::int)" "M \<le> 11"
  shows "0 \<le> (M + 1) div 12" "(M + 1) div 12 \<le> 1" "- 1 \<le> (M - 1) div 12" "(M - 1) div 12 \<le> 0"
    "12 * ((M + 1) div 12) + (M + 1) mod 12 = M + 1" "12 * ((M - 1) div 12) + (M - 1) mod 12 = M - 1"
    "M div 12 = 0" "M mod 12 = M"
  using assms by (simp_all add: div_pos_pos_trivial mod_pos_pos_trivial)

lemma year_window:
  assumes "(100 \<le> Y \<and> Y \<le> 275758) \<or> (- 271819 \<le> Y \<and> 12 * Y + M < - 1)"
    and "0 \<le> (M::int)" and "- 1 \<le> (k::int)" and "k \<le> 1"
  shows "- 271820 \<le> Y + k" and "Y + k \<le> 275759" and "\<not> (0 \<le> Y \<and> Y \<le> 99)"
  using assms by linarith+

lemma YearFromDay_ge: "DayFromYear y \<le> d \<Longrightarrow> y \<le> YearFromDay d"
proof (rule ccontr)
  assume a: "DayFromYear y \<le> d" and "\<not> y \<le> YearFromDay d"
  then have "YearFromDay d + 1 \<le> y" by simp
  then have "DayFromYear (YearFromDay d + 1) \<le> DayFromYear y" by (rule DayFromYear_mono)
  with a YearFromDay_bounds [of d] show False by linarith
qed

lemma YearFromDay_less: "d < DayFromYear y \<Longrightarrow> YearFromDay d < y"
proof (rule ccontr)
  assume a: "d < DayFromYear y" and "\<not> YearFromDay d < y"
  then have "y \<le> YearFromDay d" by simp
  then have "DayFromYear y \<le> DayFromYear (YearFromDay d)" by (rule DayFromYear_mono)
  with a YearFromDay_bounds [of d] show False by linarith
qed

lemma offset_range: "0 \<le> (WeekDay S + 6) mod 7 \<and> (WeekDay S + 6) mod 7 \<le> 6"
  by presburger

lemma MonthStartDay_after_january: "1 \<le> m \<Longrightarrow> 31 \<le> MonthStartDay m (leapOf y)"
  by (simp add: MonthStartDay_def leapOf_def)

lemma calendarCell_of_date:
  assumes "newDate tza (getFullYear tza gs) (getMonth tza gs)
             (num_add (getDate tza gs) (Some (int i))) = localMidnight tza (G + int i)"
  shows "calendarCell tza fmt dm idx clock gs i = Inr (cellAt tza fmt dm idx clock G i)"
proof -
  obtain s where s: "toISOString (localMidnight tza (G + int i)) = Inr s"
    using toISOString_localMidnight [of tza "G + int i"]
    by (cases "toISOString (localMidnight tza (G + int i))") auto
  show ?thesis
    unfolding calendarCell_def assms by (simp add: s cellAt_def isoOf_def Let_def)
qed

lemma grid_of_anchor:
  assumes z: "zoneOk tza" and m: "0 \<le> M" "M \<le> 11"
    and y: "(- 271820 \<le> Y \<and> Y < 0) \<or> (Y = 100 \<and> 1 \<le> M) \<or> (100 < Y \<and> Y \<le> 275759)"
  defines "S \<equiv> MakeDay Y M 1"
  defines "G \<equiv> S - (WeekDay S + 6) mod 7"
  shows "newDate tza (Some Y) (Some M) (Some 1) = localMidnight tza S"
    and "calendarCells tza fmt (localMidnight tza S) idx clock
           = Inr (map (cellAt tza fmt (localMidnight tza S) idx clock G) [0..<42])"
proof -
  define k where "k = MonthStartDay M (leapOf Y)"
  have S: "S = DayFromYear Y + k"
    unfolding S_def k_def using MakeDay_normal [OF m, of Y 1] by simp
  have k: "0 \<le> k" "k + 28 \<le> DaysInYear Y" "k \<le> 335"
    unfolding k_def using MonthStartDay_range [OF m, of Y] MonthStartDay_bounds [of M Y]
    by simp_all
  have k1: "1 \<le> M \<Longrightarrow> 31 \<le> k"
    unfolding k_def by (rule MonthStartDay_after_january)
  define off where "off = (WeekDay S + 6) mod 7"
  have off: "0 \<le> off" "off \<le> 6" unfolding off_def using offset_range [of S] by simp_all
  have "G = S - off" unfolding G_def off_def by simp
  then have G: "G = DayFromYear Y + (k - off)" using S by simp
  have yr: "- 271820 \<le> Y" "Y \<le> 275759" "\<not> (0 \<le> Y \<and> Y \<le> 99)" using y by linarith+
  have okS: "dayOk S" unfolding S using yr k by (intro dayOk_year) linarith+
  have okG: "dayOk G" unfolding G using yr k off by (intro dayOk_year) linarith+
  have okG41: "dayOk (G + 41)"
  proof -
    have "G + 41 = DayFromYear Y + (k - off + 41)" unfolding G by simp
    then show ?thesis using yr k off by (simp only:) (intro dayOk_year; linarith)
  qed
  have fS: "YearFromDay S = Y" "DateFromDay S = 1"
    unfolding S_def using fields_of_first [of Y M] m by (simp_all add: div_pos_pos_trivial)
  show "newDate tza (Some Y) (Some M) (Some 1) = localMidnight tza S"
    unfolding S_def using yr(3) okS z by (intro newDate_plain) (simp_all add: S_def)
  have yG: "\<not> (0 \<le> YearFromDay G \<and> YearFromDay G \<le> 99)"
  proof -
    from y consider "Y < 0" | "Y = 100" "1 \<le> M" | "100 < Y" by linarith
    then show ?thesis
    proof cases
      case 1
      have "G < DayFromYear (Y + 1)"
        unfolding G DayFromYear_step using k off by linarith
      moreover have "DayFromYear (Y + 1) \<le> DayFromYear 0"
        using 1 by (intro DayFromYear_mono) simp
      ultimately have "YearFromDay G < 0" by (intro YearFromDay_less) linarith
      then show ?thesis by simp
    next
      case 2
      then have "DayFromYear 100 \<le> G" unfolding G using k1 off by simp
      then have "100 \<le> YearFromDay G" by (rule YearFromDay_ge)
      then show ?thesis by simp
    next
      case 3
      then have "DayFromYear (100 + 1) \<le> DayFromYear Y" by (intro DayFromYear_mono) simp
      then have "DayFromYear 100 + 365 \<le> DayFromYear Y"
        unfolding DayFromYear_step using DaysInYear_range [of 100] by linarith
      then have "DayFromYear 100 \<le> G" unfolding G using k off by linarith
      then have "100 \<le> YearFromDay G" by (rule YearFromDay_ge)
      then show ?thesis by simp
    qed
  qed
  have g: "gridStartOf tza (localMidnight tza S) = localMidnight tza G"
    unfolding G_def using fS yr(3) okS okG z
    by (intro gridStartOf_first) (simp_all add: G_def)
  show "calendarCells tza fmt (localMidnight tza S) idx clock
           = Inr (map (cellAt tza fmt (localMidnight tza S) idx clock G) [0..<42])"
    using g yG okG okG41 z by (rule calendarCells_of_gridStart)
qed

lemma date_cellAt: "date (cellAt tza fmt dm idx clock G i) = localMidnight tza (G + int i)"
  by (simp add: cellAt_def Let_def)

section \<open>The calendar grid: size, days and first weekday\<close>

text \<open>
  Where no year from 0 to 99 comes in, the grid is as expected. On a host whose offset
  from UTC never changes, for every anchor month from February of the year 100 to
  December 275759, and for every anchor month of the years -271820 to -1, with any
  workout index and any clock readings, the grid builder returns exactly 42 cells; the
  dates of the cells are the local midnights of 42 consecutive days (day numbers
  \<open>G, G + 1, \<dots>, G + 41\<close>); \<open>G\<close> is the first day \<open>S\<close> of the anchor month stepped back by
  \<open>(weekday + 6) mod 7\<close> days, with Sunday = 0; and the first cell falls on a Monday.
\<close>

lemma grid_outside_years_0_to_99:
  assumes "zoneOk tza" and "0 \<le> M" and "M \<le> 11"
    and "(- 271820 \<le> Y \<and> Y < 0) \<or> (Y = 100 \<and> 1 \<le> M) \<or> (100 < Y \<and> Y \<le> 275759)"
  shows
    "(let anchor = newDate tza (Some Y) (Some M) (Some 1);
          S = MakeDay Y M 1;
          G = S - (WeekDay S + 6) mod 7
      in anchor = localMidnight tza S \<and> getDay tza anchor = Some (WeekDay S) \<and>
         (case calendarCells tza fmt anchor idx clock of
            Inl e \<Rightarrow> False
          | Inr cells \<Rightarrow>
              length cells = 42 \<and>
              (\<forall>i<42. date (cells ! i) = localMidnight tza (G + int i)) \<and>
              getDay tza (date (cells ! 0)) = Some 1))"
proof -
  note g = grid_of_anchor [OF assms]
  show ?thesis
    unfolding Let_def g(1) g(2)
    by (simp add: date_cellAt getters_localMidnight WeekDay_monday)
qed

lemma grid_outside_years_0_to_99_instance:
  "zoneOk 0 \<and> (0::int) \<le> 1 \<and> (1::int) \<le> 11 \<and> (100::int) < 2024 \<and> (2024::int) \<le> 275759 \<and>
   MakeDay 2024 1 1 - (WeekDay (MakeDay 2024 1 1) + 6) mod 7 = 19751 \<and>
   (case calendarCells 0 (\<lambda>d. []) (newDate 0 (Some 2024) (Some 1) (Some 1)) Map.empty (\<lambda>i. 0) of
      Inl e \<Rightarrow> False
    | Inr cells \<Rightarrow>
        length cells = 42 \<and>
        (\<forall>i<42. date (cells ! i) = localMidnight 0 (19751 + int i)) \<and>
        getDay 0 (date (cells ! 0)) = Some 1)"
proof -
  have z: "zoneOk 0" by (simp add: zoneOk_def msPerDay_def)
  have g: "MakeDay 2024 1 1 - (WeekDay (MakeDay 2024 1 1) + 6) mod 7 = 19751" by code_simp
  have h: "(0::int) \<le> 1" "(1::int) \<le> 11"
    "(- 271820 \<le> (2024::int) \<and> (2024::int) < 0) \<or> ((2024::int) = 100 \<and> (1::int) \<le> 1)
       \<or> (100 < (2024::int) \<and> (2024::int) \<le> 275759)"
    by simp_all
  note t = grid_outside_years_0_to_99 [OF z h, of "\<lambda>d. []" Map.empty "\<lambda>i. 0", unfolded Let_def g]
  note c = t [THEN conjunct2, THEN conjunct2]
  show ?thesis
    using z g c by simp
qed

text \<open>
  Claim C1 says that, for every anchor month, the grid is 42 consecutive days that
  start from the grid start, the first day of the anchor month stepped back to a
  Monday. The source departs from this where the grid start lies in a year from 0 to
  99. On a host in UTC, with the anchor at January of the year 100, the grid start
  that \<^verbatim>\<open>setDate\<close> computes is Monday 28 December of the year 99, as the claim wants; but
  each cell is built by \<^verbatim>\<open>new Date(year, month, day + index)\<close> from the fields of the grid
  start, and that constructor reads a year argument from 0 to 99 as 1900 to 1999. The
  42 cells therefore do not start from the grid start: the first cell is Tuesday
  28 December 1999.
\<close>

theorem calendar_grid_two_digit_year:
  "(let anchor = newDate 0 (Some 100) (Some 0) (Some 1);
        gridStart = gridStartOf 0 anchor
    in getFullYear 0 anchor = Some 100 \<and> getMonth 0 anchor = Some 0 \<and>
       getDate 0 anchor = Some 1 \<and>
       getFullYear 0 gridStart = Some 99 \<and> getMonth 0 gridStart = Some 11 \<and>
       getDate 0 gridStart = Some 28 \<and> getDay 0 gridStart = Some 1 \<and>
       (case calendarCells 0 (\<lambda>d. []) anchor Map.empty (\<lambda>i. 0) of
          Inl e \<Rightarrow> False
        | Inr cells \<Rightarrow>
            length cells = 42 \<and>
            date (cells ! 0) \<noteq> gridStart \<and>
            getFullYear 0 (date (cells ! 0)) = Some 1999 \<and>
            getDay 0 (date (cells ! 0)) = Some 2 \<and>
            isoDate (cells ! 0) = ''1999-12-28''))"
proof -
  let ?a = "newDate 0 (Some 100) (Some 0) (Some 1)"
  let ?gs = "TimeValue (- 59011804800000)"
  have z: "zoneOk 0" by (simp add: zoneOk_def msPerDay_def)
  have a: "getFullYear 0 ?a = Some 100" "getMonth 0 ?a = Some 0" "getDate 0 ?a = Some 1"
    by code_simp+
  have gs: "gridStartOf 0 ?a = ?gs" by code_simp
  have f: "getFullYear 0 ?gs = Some 99" "getMonth 0 ?gs = Some 11" "getDate 0 ?gs = Some 28"
    "getDay 0 ?gs = Some 1"
    by code_simp+
  have d: "MakeDay 1999 11 28 = 10953" by code_simp
  have c: "calendarCell 0 fmt ?a idx clock ?gs i = Inr (cellAt 0 fmt ?a idx clock 10953 i)"
    if "i \<in> set [0..<42]" for fmt idx clock i
  proof (rule calendarCell_of_date)
    have ok: "dayOk (10953 + int i)" using that by (auto simp: dayOk_def)
    have "MakeDay 1999 11 (28 + int i) = 10953 + int i"
      using MakeDay_shift [of 1999 11 28 "int i"] d by simp
    then show "newDate 0 (getFullYear 0 ?gs) (getMonth 0 ?gs)
        (num_add (getDate 0 ?gs) (Some (int i))) = localMidnight 0 (10953 + int i)"
      unfolding f using ok z by (simp add: num_add_def newDate_def MakeFullYear_def TimeClip_day)
  qed
  have cells: "calendarCells 0 fmt ?a idx clock = Inr (map (cellAt 0 fmt ?a idx clock 10953) [0..<42])"
    for fmt idx clock
    unfolding calendarCells_def gs by (rule mapE_all_Inr) (rule c)
  have w: "getDay 0 (localMidnight 0 10953) = Some 2"
    "getFullYear 0 (localMidnight 0 10953) = Some 1999" by code_simp+
  have i: "isoOf (localMidnight 0 10953) = ''1999-12-28''" by code_simp
  have n: "localMidnight 0 10953 \<noteq> ?gs" by code_simp
  show ?thesis
    unfolding Let_def cells gs using a f w i n by (simp add: cellAt_def Let_def)
qed

section \<open>Month navigation\<close>

text \<open>
  Where no year from 0 to 99 comes in, navigation is as expected. On a host whose
  offset from UTC never changes, for every month anchor from January of the year 100
  to December 275758, and for every anchor from the year -271819 up to November of the
  year -1, year boundaries included: \<^verbatim>\<open>goToNextMonth\<close> followed by \<^verbatim>\<open>goToPreviousMonth\<close>
  returns the anchor itself, and each of the two operations yields a date whose day is
  1 and whose month is the following, respectively the preceding, calendar month.
\<close>

lemma navigation_outside_years_0_to_99:
  assumes "zoneOk tza" and "0 \<le> M" and "M \<le> 11"
    and "(100 \<le> Y \<and> Y \<le> 275758) \<or> (- 271819 \<le> Y \<and> 12 * Y + M < - 1)"
  shows
    "(let a = newDate tza (Some Y) (Some M) (Some 1)
      in monthIndex tza a = Some (12 * Y + M) \<and> getDate tza a = Some 1 \<and>
         goToPreviousMonth tza (goToNextMonth tza a) = a \<and>
         monthIndex tza (goToNextMonth tza a) = Some (12 * Y + M + 1) \<and>
         getDate tza (goToNextMonth tza a) = Some 1 \<and>
         monthIndex tza (goToPreviousMonth tza a) = Some (12 * Y + M - 1) \<and>
         getDate tza (goToPreviousMonth tza a) = Some 1)"
proof -
  let ?a = "newDate tza (Some Y) (Some M) (Some 1)"
  note ms = month_step [OF assms(2,3)]
  have z: "- 1 \<le> (0::int)" "(0::int) \<le> 1" by simp_all
  have y: "\<not> (0 \<le> Y \<and> Y \<le> 99)"
    by (rule year_window(3) [OF assms(4,2) z])
  have r0: "- 271820 \<le> Y + M div 12" "Y + M div 12 \<le> 275759"
    unfolding ms(7) using year_window(1,2) [OF assms(4,2) z] by simp_all
  have r1: "- 271820 \<le> Y + (M + 1) div 12" "Y + (M + 1) div 12 \<le> 275759"
    using year_window(1,2) [OF assms(4,2), of "(M + 1) div 12"] ms(1,2) by simp_all
  have r2: "- 271820 \<le> Y + (M - 1) div 12" "Y + (M - 1) div 12 \<le> 275759"
    using year_window(1,2) [OF assms(4,2), of "(M - 1) div 12"] ms(3,4) by simp_all
  note a = newDate_first [OF y r0 assms(1)]
  note n = newDate_first [OF y r1 assms(1)]
  note p = newDate_first [OF y r2 assms(1)]
  have nx: "goToNextMonth tza ?a = newDate tza (Some Y) (Some (M + 1)) (Some 1)"
    unfolding goToNextMonth_def a(2,3) ms(7,8) by (simp add: num_add_def)
  have pv: "goToPreviousMonth tza ?a = newDate tza (Some Y) (Some (M - 1)) (Some 1)"
    unfolding goToPreviousMonth_def a(2,3) ms(7,8) by (simp add: num_sub_def)
  let ?Y' = "Y + (M + 1) div 12" and ?M' = "(M + 1) mod 12 - 1"
  have b: "?Y' + ?M' div 12 = Y" "?M' mod 12 = M"
    using month_back [OF assms(2,3)] by simp_all
  have y': "\<not> (0 \<le> ?Y' \<and> ?Y' \<le> 99)"
  proof (cases "M = 11")
    case True
    then have "?Y' = Y + 1" by simp
    then show ?thesis using assms(4) True by simp linarith
  next
    case False
    then have "M + 1 < 12" using assms(3) by linarith
    then have "?Y' = Y" using assms(2) by (simp add: div_pos_pos_trivial)
    then show ?thesis using y by simp
  qed
  have r': "- 271820 \<le> ?Y' + ?M' div 12" "?Y' + ?M' div 12 \<le> 275759"
    unfolding b using year_window(1,2) [OF assms(4,2) z] by simp_all
  have "goToPreviousMonth tza (goToNextMonth tza ?a) = newDate tza (Some ?Y') (Some ?M') (Some 1)"
    unfolding nx goToPreviousMonth_def n(2,3) by (simp add: num_sub_def)
  also have "\<dots> = localMidnight tza (MakeDay ?Y' ?M' 1)"
    by (rule newDate_first(1) [OF y' r' assms(1)])
  also have "MakeDay ?Y' ?M' 1 = MakeDay Y M 1"
  proof -
    have "MakeDay ?Y' ?M' 1 = MakeDay (?Y' + ?M' div 12) (?M' mod 12) 1"
      by (rule MakeDay_normalise)
    then show ?thesis by (simp only: b)
  qed
  finally have rt: "goToPreviousMonth tza (goToNextMonth tza ?a) = ?a"
    by (simp only: a(1))
  have i0: "monthIndex tza ?a = Some (12 * Y + M)"
    unfolding monthIndex_def a(2,3) ms(7,8) by simp
  have i1: "monthIndex tza (goToNextMonth tza ?a) = Some (12 * Y + M + 1)"
    unfolding nx monthIndex_def n(2,3) using ms(5) by simp
  have i2: "monthIndex tza (goToPreviousMonth tza ?a) = Some (12 * Y + M - 1)"
    unfolding pv monthIndex_def p(2,3) using ms(6) by simp
  show ?thesis
    unfolding Let_def using rt i0 i1 i2 a(4) n(4) p(4) by (simp only: nx pv simp_thms)
qed

lemma navigation_outside_years_0_to_99_instance:
  "zoneOk 10800000 \<and> (0::int) \<le> 11 \<and> (11::int) \<le> 11 \<and> (100::int) \<le> 2024 \<and> (2024::int) \<le> 275758 \<and>
   (let a = newDate 10800000 (Some 2024) (Some 11) (Some 1)
    in monthIndex 10800000 a = Some 24299 \<and>
       goToPreviousMonth 10800000 (goToNextMonth 10800000 a) = a \<and>
       monthIndex 10800000 (goToNextMonth 10800000 a) = Some 24300 \<and>
       getDate 10800000 (goToNextMonth 10800000 a) = Some 1)"
proof -
  have z: "zoneOk 10800000" by (simp add: zoneOk_def msPerDay_def)
  show ?thesis
    using z navigation_outside_years_0_to_99 [of 10800000 11 2024] by (simp add: Let_def)
qed

text \<open>
  Claim C5 says that, for every month anchor, \<^verbatim>\<open>next()\<close> followed by \<^verbatim>\<open>previous()\<close> returns
  the anchor, and that each step moves by exactly one calendar month. The source
  departs from this at an anchor in a year from 0 to 99, because both operations build
  their result by \<^verbatim>\<open>new Date(year, month \<plusminus> 1, 1)\<close>, and that constructor reads a year
  argument from 0 to 99 as 1900 to 1999. On a host in UTC, from the anchor December of
  the year 99 (month 1199 counted from January of the year 0), which
  \<^verbatim>\<open>goToPreviousMonth\<close> reaches from January 100, \<^verbatim>\<open>goToNextMonth\<close> gives January 2000
  (month 24000), 1901 months later, and \<^verbatim>\<open>goToPreviousMonth\<close> from there gives December
  1999, not the anchor.
\<close>

theorem month_navigation_two_digit_year:
  "(let a = goToPreviousMonth 0 (newDate 0 (Some 100) (Some 0) (Some 1))
    in getFullYear 0 a = Some 99 \<and> getMonth 0 a = Some 11 \<and>
       monthIndex 0 a = Some 1199 \<and> getDate 0 a = Some 1 \<and>
       getFullYear 0 (goToNextMonth 0 a) = Some 2000 \<and>
       getMonth 0 (goToNextMonth 0 a) = Some 0 \<and>
       monthIndex 0 (goToNextMonth 0 a) = Some 24000 \<and>
       getDate 0 (goToNextMonth 0 a) = Some 1 \<and>
       monthIndex 0 (goToPreviousMonth 0 (goToNextMonth 0 a)) = Some 23999 \<and>
       goToPreviousMonth 0 (goToNextMonth 0 a) \<noteq> a)"
  by code_simp


section \<open>Gestures: the swipe threshold\<close>

text \<open>
  Claim C6. On touch-end with a recorded start coordinate, let \<open>delta\<close> be the
  difference \<open>endX - startX\<close> that the handler computes, the first changed touch minus
  the start, in double arithmetic. A delta above 40 navigates to the previous month, a
  delta below \<open>-40\<close> to the next month, and every delta of magnitude at most 40 (the
  values 40 and \<open>-40\<close> included) leaves the month as it is; the start coordinate is
  cleared in all three cases. On touch-end with no recorded start the state is
  unchanged.
\<close>

theorem touch_end_threshold:
  "(touchStartXRef s = Some startX \<longrightarrow>
      (let s' = handleTouchEnd tza (endX # others) s;
           toPrevious = s\<lparr>displayedMonth := goToPreviousMonth tza (displayedMonth s),
                          touchStartXRef := None\<rparr>;
           toNext = s\<lparr>displayedMonth := goToNextMonth tza (displayedMonth s),
                      touchStartXRef := None\<rparr>;
           stay = s\<lparr>touchStartXRef := None\<rparr>
       in case doubleMinus endX startX of
            Finite delta \<Rightarrow>
              (delta > 40 \<longrightarrow> s' = toPrevious) \<and>
              (delta < - 40 \<longrightarrow> s' = toNext) \<and>
              (\<bar>delta\<bar> \<le> 40 \<longrightarrow> s' = stay)
          | PosInfinity \<Rightarrow> s' = toPrevious
          | NegInfinity \<Rightarrow> s' = toNext)) \<and>
   (touchStartXRef s = None \<longrightarrow> handleTouchEnd tza changedTouches s = s)"
  by (auto simp: handleTouchEnd_def greaterThan_def lessThan_def Let_def split: Double.splits)

text \<open>
  The instances: a start at 200 with ends at 150, 159, 160, 240 and 241, where the
  differences -50, -41, -40, 40 and 41 are exact; and the doubles nearest to 0.1 and
  40.1, whose exact difference lies above 40 and whose difference as doubles is 40.
\<close>

theorem touch_end_threshold_witness:
  "(let s = handleTouchStart [200] (mount 0 fallbackWebApp 0);
        toPrevious = s\<lparr>displayedMonth := goToPreviousMonth 0 (displayedMonth s),
                       touchStartXRef := None\<rparr>;
        toNext = s\<lparr>displayedMonth := goToNextMonth 0 (displayedMonth s),
                   touchStartXRef := None\<rparr>;
        stay = s\<lparr>touchStartXRef := None\<rparr>
    in touchStartXRef s = Some 200 \<and>
       doubleMinus 150 200 = Finite (- 50) \<and> handleTouchEnd 0 [150] s = toNext \<and>
       doubleMinus 159 200 = Finite (- 41) \<and> handleTouchEnd 0 [159] s = toNext \<and>
       doubleMinus 160 200 = Finite (- 40) \<and> handleTouchEnd 0 [160] s = stay \<and>
       doubleMinus 240 200 = Finite 40 \<and> handleTouchEnd 0 [240] s = stay \<and>
       doubleMinus 241 200 = Finite 41 \<and> handleTouchEnd 0 [241] s = toPrevious) \<and>
   (let x = 3602879701896397 / 36028797018963968;
        y = 5643573283048653 / 140737488355328;
        s = handleTouchStart [x] (mount 0 fallbackWebApp 0)
    in roundToDouble (1 / 10) = Finite x \<and> roundToDouble (401 / 10) = Finite y \<and>
       40 < y - x \<and> doubleMinus y x = Finite 40 \<and>
       handleTouchEnd 0 [y] s = s\<lparr>touchStartXRef := None\<rparr>) \<and>
   touchStartXRef (mount 0 fallbackWebApp 0) = None \<and>
   handleTouchEnd 0 [150] (mount 0 fallbackWebApp 0) = mount 0 fallbackWebApp 0"
proof -
  let ?m = "mount 0 fallbackWebApp 0"
  let ?s = "handleTouchStart [200] ?m"
  let ?x = "3602879701896397 / 36028797018963968 :: real"
  let ?y = "5643573283048653 / 140737488355328 :: real"
  let ?t = "handleTouchStart [?x] ?m"
  have a: "touchStartXRef ?s = Some 200" "touchStartXRef ?t = Some ?x"
    by (simp_all add: handleTouchStart_def)
  have b: "touchStartXRef ?m = None"
    by (simp add: mount_def themeEffect_def Let_def)
  have d: "doubleMinus 150 200 = Finite (- 50)" "doubleMinus 159 200 = Finite (- 41)"
    "doubleMinus 160 200 = Finite (- 40)" "doubleMinus 240 200 = Finite 40"
    "doubleMinus 241 200 = Finite 41" "doubleMinus ?y ?x = Finite 40"
    by code_simp+
  have r: "roundToDouble (1 / 10) = Finite ?x" "roundToDouble (401 / 10) = Finite ?y"
    by code_simp+
  have g: "40 < ?y - ?x" by simp
  note t = touch_end_threshold [where s = ?s and startX = 200 and endX = 150 and tza = 0 and others = "[]" and changedTouches = "[]", unfolded Let_def d]
    touch_end_threshold [where s = ?s and startX = 200 and endX = 159 and tza = 0 and others = "[]" and changedTouches = "[]", unfolded Let_def d]
    touch_end_threshold [where s = ?s and startX = 200 and endX = 160 and tza = 0 and others = "[]" and changedTouches = "[]", unfolded Let_def d]
    touch_end_threshold [where s = ?s and startX = 200 and endX = 240 and tza = 0 and others = "[]" and changedTouches = "[]", unfolded Let_def d]
    touch_end_threshold [where s = ?s and startX = 200 and endX = 241 and tza = 0 and others = "[]" and changedTouches = "[]", unfolded Let_def d]
    touch_end_threshold [where s = ?t and startX = ?x and endX = ?y and tza = 0 and others = "[]" and changedTouches = "[]", unfolded Let_def d]
    touch_end_threshold [where s = ?m and startX = 0 and endX = 0 and tza = 0 and others = "[]" and changedTouches = "[150]"]
  show ?thesis
    unfolding Let_def using a b d r g t by simp
qed

text \<open>
  Claim C10. A touch-end event with an empty list of changed touches, after a start
  coordinate \<open>startX\<close> was recorded, is handled with an end coordinate of 0, so that
  \<open>delta = - startX\<close>; for every \<open>startX\<close> above 40 it navigates to the next month.
\<close>

theorem touch_end_without_touch:
  "touchStartXRef s = Some startX \<Longrightarrow>
     handleTouchEnd tza [] s =
       (let delta = 0 - startX
        in if delta > 40
           then s\<lparr>displayedMonth := goToPreviousMonth tza (displayedMonth s), touchStartXRef := None\<rparr>
           else if delta < - 40
           then s\<lparr>displayedMonth := goToNextMonth tza (displayedMonth s), touchStartXRef := None\<rparr>
           else s\<lparr>touchStartXRef := None\<rparr>) \<and>
     (startX > 40 \<longrightarrow>
        handleTouchEnd tza [] s
          = s\<lparr>displayedMonth := goToNextMonth tza (displayedMonth s), touchStartXRef := None\<rparr>)"
  by (auto simp: handleTouchEnd_def greaterThan_def lessThan_def Let_def)

theorem touch_end_without_touch_witness:
  "(let s = handleTouchStart [41] (mount 0 fallbackWebApp 0)
    in touchStartXRef s = Some 41 \<and> (41::real) > 40 \<and>
       handleTouchEnd 0 [] s
         = s\<lparr>displayedMonth := goToNextMonth 0 (displayedMonth s), touchStartXRef := None\<rparr>)"
proof -
  let ?s = "handleTouchStart [41] (mount 0 fallbackWebApp 0)"
  have a: "touchStartXRef ?s = Some 41" by (simp add: handleTouchStart_def)
  show ?thesis
    using a touch_end_without_touch [OF a, of 0] by (simp add: Let_def)
qed

section \<open>Loading the workouts: cancellation\<close>

text \<open>
  Claim C9. When the fetch is cancelled while \<^verbatim>\<open>loadWorkouts\<close> waits for the response or
  for its body, the outcome of the request, success or failure, is not applied: the
  workout list and the error status are what they were, and only the loading flag is
  reset.
\<close>

theorem cancelled_fetch_discarded:
  "ab = AbortedWhileFetching m \<or>
     (ab = AbortedWhileReadingBody m \<and> net = Fulfilled response \<and> ok response) \<Longrightarrow>
     loadWorkouts ab net s = s\<lparr>isLoadingWorkouts := False, fetchPending := False\<rparr> \<and>
     workouts (loadWorkouts ab net s) = workouts s \<and>
     fetchError (loadWorkouts ab net s) = fetchError s"
  by (auto simp: loadWorkouts_def loadWorkouts_try_def awaitFetch_def awaitJson_def
      isAbortError_def Let_def)

theorem cancelled_fetch_discarded_witness:
  "(let s = mount 0 fallbackWebApp 0;
        w = \<lparr>title = ''Leg Day'', date = ''2024-02-05'', exercises = [''Squat'', ''Lunge'']\<rparr>;
        r = \<lparr>ok = True, status = 200, json = Inr [w]\<rparr>;
        m = Message ''The operation was aborted.''
    in workouts (loadWorkouts (AbortedWhileFetching m) (Fulfilled r) s) = workouts s \<and>
       fetchError (loadWorkouts (AbortedWhileFetching m) (Fulfilled r) s) = fetchError s \<and>
       ok r \<and>
       workouts (loadWorkouts (AbortedWhileReadingBody m) (Fulfilled r) s) = workouts s \<and>
       fetchError (loadWorkouts (AbortedWhileReadingBody m) (Fulfilled r) s) = fetchError s \<and>
       workouts (loadWorkouts (AbortedWhileFetching m) (Rejected OtherValue) s) = workouts s \<and>
       fetchError (loadWorkouts (AbortedWhileFetching m) (Rejected OtherValue) s) = fetchError s \<and>
       workouts (loadWorkouts NotAborted (Fulfilled r) s) = [w] \<and>
       fetchError (loadWorkouts NotAborted (Rejected OtherValue) s) = Some UnknownLoadError \<and>
       fetchError (loadWorkouts NotAborted (Fulfilled (r\<lparr>ok := False, status := 500\<rparr>)) s)
         = Some (LoadFailed 500))"
proof -
  let ?s = "mount 0 fallbackWebApp 0"
  let ?w = "\<lparr>title = ''Leg Day'', date = ''2024-02-05'', exercises = [''Squat'', ''Lunge'']\<rparr>"
  let ?r = "\<lparr>ok = True, status = 200, json = Inr [?w]\<rparr>"
  let ?m = "Message ''The operation was aborted.''"
  have n: "workouts (loadWorkouts NotAborted (Fulfilled ?r) ?s) = [?w]"
    "fetchError (loadWorkouts NotAborted (Rejected OtherValue) ?s) = Some UnknownLoadError"
    "fetchError (loadWorkouts NotAborted (Fulfilled (?r\<lparr>ok := False, status := 500\<rparr>)) ?s)
       = Some (LoadFailed 500)"
    by (simp_all add: loadWorkouts_def loadWorkouts_try_def awaitFetch_def awaitJson_def
        isAbortError_def messageOf_def Let_def)
  show ?thesis
    using n
      cancelled_fetch_discarded [of "AbortedWhileFetching ?m" ?m "Fulfilled ?r" ?r ?s]
      cancelled_fetch_discarded [of "AbortedWhileReadingBody ?m" ?m "Fulfilled ?r" ?r ?s]
      cancelled_fetch_discarded [of "AbortedWhileFetching ?m" ?m "Rejected OtherValue" ?r ?s]
    by (simp add: Let_def)
qed

section \<open>The calendar grid and the clock\<close>

lemma mapE_cong: "\<forall>x\<in>set xs. f x = g x \<Longrightarrow> mapE f xs = mapE g xs"
  by (induction xs) (auto split: sum.splits)

lemma getters_same_day:
  assumes "Day (LocalTime tza t) = Day (LocalTime tza u)"
  shows "getFullYear tza (TimeValue t) = getFullYear tza (TimeValue u)"
    and "getMonth tza (TimeValue t) = getMonth tza (TimeValue u)"
    and "getDate tza (TimeValue t) = getDate tza (TimeValue u)"
  using assms by (simp_all add: getFullYear_def getMonth_def getDate_def)

lemma day_of_time: "0 \<le> r \<Longrightarrow> r < 86400000 \<Longrightarrow> Day (LocalTime 0 (q * 86400000 + r)) = q"
  by (simp add: Day_def LocalTime_def msPerDay_def div_pos_pos_trivial)

text \<open>
  Claim C4, as amended. The grid builder has no input for today: the callback of every
  cell reads the ambient clock, 42 readings in one construction. The grid is a function
  of the zone, the anchor month, the workout index and these readings, and it depends on
  each reading only through the local calendar day it falls on: two constructions with
  equal anchor and index yield equal grids whenever, cell by cell, their readings fall
  on the same local day.
\<close>

theorem grid_depends_on_clock_days:
  assumes "\<forall>i<42. Day (LocalTime tza (clock1 i)) = Day (LocalTime tza (clock2 i))"
  shows "calendarCells tza fmt anchor idx clock1 = calendarCells tza fmt anchor idx clock2"
  unfolding calendarCells_def
proof (rule mapE_cong, rule ballI)
  fix i assume "i \<in> set [0..<42]"
  then have "Day (LocalTime tza (clock1 i)) = Day (LocalTime tza (clock2 i))"
    using assms by simp
  note g = getters_same_day [OF this]
  show "calendarCell tza fmt anchor idx clock1 (gridStartOf tza anchor) i
          = calendarCell tza fmt anchor idx clock2 (gridStartOf tza anchor) i"
    unfolding calendarCell_def Let_def g ..
qed

theorem grid_depends_on_clock_days_witness:
  "Day (LocalTime 0 1707134400000) = 19758 \<and>
   Day (LocalTime 0 (1707134400000 + int 41)) = 19758 \<and>
   calendarCells 0 (\<lambda>d. []) (newDate 0 (Some 2024) (Some 1) (Some 1)) Map.empty (\<lambda>i. 1707134400000)
     = calendarCells 0 (\<lambda>d. []) (newDate 0 (Some 2024) (Some 1) (Some 1)) Map.empty
         (\<lambda>i. 1707134400000 + int i)"
proof -
  have a: "Day (LocalTime 0 1707134400000) = 19758"
    using day_of_time [of 43200000 19758] by simp
  have b: "Day (LocalTime 0 (1707134400000 + int i)) = 19758" if "i < 42" for i
    using day_of_time [of "43200000 + int i" 19758] that by (simp add: add.assoc)
  have h: "\<forall>i<42. Day (LocalTime 0 (1707134400000)) = Day (LocalTime 0 (1707134400000 + int i))"
    using a b by simp
  show ?thesis
    using a b [of 41]
      grid_depends_on_clock_days [OF h, of "\<lambda>d. []" "newDate 0 (Some 2024) (Some 1) (Some 1)" Map.empty]
    by simp
qed

text \<open>
  The claim as stated, that the grid is determined by the anchor, the index and one
  value of today, fails: two constructions for February 2024 that both begin at
  23:59:59.990 on 5 February, one with a clock that stands still and one with a clock
  that advances 10 ms per cell, mark different cells as today.
\<close>

theorem grid_reads_clock_counterexample:
  "(let anchor = newDate 0 (Some 2024) (Some 1) (Some 1);
        clock1 = (\<lambda>i. 1707177599990);
        clock2 = (\<lambda>i. 1707177599990 + 10 * int i)
    in clock1 0 = clock2 0 \<and>
       calendarCells 0 (\<lambda>d. []) anchor Map.empty clock1
         \<noteq> calendarCells 0 (\<lambda>d. []) anchor Map.empty clock2)"
proof -
  let ?c1 = "\<lambda>i::nat. 1707177599990 :: int" and ?c2 = "\<lambda>i::nat. 1707177599990 + 10 * int i"
  have z: "zoneOk 0" by (simp add: zoneOk_def msPerDay_def)
  have h: "(0::int) \<le> 1" "(1::int) \<le> 11"
    "(- 271820 \<le> (2024::int) \<and> (2024::int) < 0) \<or> ((2024::int) = 100 \<and> (1::int) \<le> 1)
       \<or> (100 < (2024::int) \<and> (2024::int) \<le> 275759)"
    by simp_all
  have g: "MakeDay 2024 1 1 - (WeekDay (MakeDay 2024 1 1) + 6) mod 7 = 19751" by code_simp
  note cells = grid_of_anchor [OF z h, unfolded g]
  let ?a = "localMidnight 0 (MakeDay 2024 1 1)"
  have t1: "isToday (cellAt 0 (\<lambda>d. []) ?a Map.empty ?c1 19751 7)" by code_simp
  have t2: "\<not> isToday (cellAt 0 (\<lambda>d. []) ?a Map.empty ?c2 19751 7)" by code_simp
  have "map (cellAt 0 (\<lambda>d. []) ?a Map.empty ?c1 19751) [0..<42]
          \<noteq> map (cellAt 0 (\<lambda>d. []) ?a Map.empty ?c2 19751) [0..<42]"
  proof
    assume "map (cellAt 0 (\<lambda>d. []) ?a Map.empty ?c1 19751) [0..<42]
          = map (cellAt 0 (\<lambda>d. []) ?a Map.empty ?c2 19751) [0..<42]"
    then have "cellAt 0 (\<lambda>d. []) ?a Map.empty ?c1 19751 7 = cellAt 0 (\<lambda>d. []) ?a Map.empty ?c2 19751 7"
      by (simp only: map_eq_conv) simp
    with t1 t2 show False by simp
  qed
  then show ?thesis
    unfolding Let_def cells(1) cells(2) by simp
qed

section \<open>The ISO string of a cell\<close>

lemma length_digits: "length (digits w n) = w"
  by (induction w arbitrary: n) simp_all

lemma day_west_of_utc:
  assumes "- msPerDay < tza" and "tza \<le> 0"
  shows "Day (UTC tza (MakeDate D 0)) = D"
proof -
  have "D * 86400000 - tza = D * 86400000 + (- tza)" by simp
  moreover have "0 \<le> - tza" "- tza < 86400000" using assms by (simp_all add: msPerDay_def)
  ultimately show ?thesis
    by (simp add: Day_def UTC_def MakeDate_def msPerDay_def div_pos_pos_trivial)
qed

lemma isoOf_west_of_utc:
  assumes "- msPerDay < tza" and "tza \<le> 0"
    and "0 \<le> YearFromDay D" and "YearFromDay D \<le> 9999"
  shows "isoOf (localMidnight tza D)
           = isoDayString (YearFromDay D) (MonthFromDay D) (DateFromDay D)"
  using assms(3,4)
  by (simp add: isoOf_def localMidnight_def toISOString_def Let_def isoYear_def isoDayString_def
      day_west_of_utc [OF assms(1,2)] length_digits)

text \<open>
  In a zone at or west of UTC, and in the years 0 to 9999, the string of a cell is the
  \<^verbatim>\<open>YYYY-MM-DD\<close> string of the cell's own year, month and day.
\<close>

lemma iso_date_west_of_utc:
  assumes "- msPerDay < tza" and "tza \<le> 0"
    and "0 \<le> YearFromDay (G + int i)" and "YearFromDay (G + int i) \<le> 9999"
  shows "(let c = cellAt tza fmt dm idx clock G i
          in getFullYear tza (date c) = Some (YearFromDay (G + int i)) \<and>
             getMonth tza (date c) = Some (MonthFromDay (G + int i)) \<and>
             getDate tza (date c) = Some (DateFromDay (G + int i)) \<and>
             isoDate c = isoDayString (YearFromDay (G + int i)) (MonthFromDay (G + int i))
                           (DateFromDay (G + int i)) \<and>
             hasWorkout c = hasEntry idx (isoDate c))"
  using isoOf_west_of_utc [OF assms]
  by (simp add: cellAt_def Let_def getters_localMidnight)

text \<open>
  Claim C2 fails on the source in every zone east of UTC. The cell's date is a local
  midnight, and \<^verbatim>\<open>toISOString\<close> prints the UTC day of that instant. In the zone
  UTC+3, for February 2024 and one workout on 2024-02-05, the cell whose own date is
  5 February 2024 carries the string 2024-02-04 and no workout mark, and the cell of
  6 February carries the string 2024-02-05 and the mark.
\<close>

theorem iso_date_is_utc_day:
  "(let tza = 10800000;
        w = \<lparr>title = ''Leg Day'', date = ''2024-02-05'', exercises = [''Squat'', ''Lunge'']\<rparr>;
        anchor = newDate tza (Some 2024) (Some 1) (Some 1)
    in case workoutsByDate [w] of
         Inl e \<Rightarrow> False
       | Inr idx \<Rightarrow>
           (case calendarCells tza (\<lambda>d. []) anchor idx (\<lambda>i. 0) of
              Inl e \<Rightarrow> False
            | Inr cells \<Rightarrow>
                getFullYear tza (date (cells ! 7)) = Some 2024 \<and>
                getMonth tza (date (cells ! 7)) = Some 1 \<and>
                getDate tza (date (cells ! 7)) = Some 5 \<and>
                isoDate (cells ! 7) = ''2024-02-04'' \<and>
                isoDate (cells ! 7) \<noteq> isoDayString 2024 1 5 \<and>
                \<not> hasWorkout (cells ! 7) \<and>
                getDate tza (date (cells ! 8)) = Some 6 \<and>
                isoDate (cells ! 8) = ''2024-02-05'' \<and>
                hasWorkout (cells ! 8)))"
proof -
  let ?w = "\<lparr>title = ''Leg Day'', date = ''2024-02-05'', exercises = [''Squat'', ''Lunge'']\<rparr>"
  let ?idx = "[''2024-02-05'' \<mapsto> [?w]]"
  have z: "zoneOk 10800000" by (simp add: zoneOk_def msPerDay_def)
  have h: "(0::int) \<le> 1" "(1::int) \<le> 11"
    "(- 271820 \<le> (2024::int) \<and> (2024::int) < 0) \<or> ((2024::int) = 100 \<and> (1::int) \<le> 1)
       \<or> (100 < (2024::int) \<and> (2024::int) \<le> 275759)"
    by simp_all
  have g: "MakeDay 2024 1 1 - (WeekDay (MakeDay 2024 1 1) + 6) mod 7 = 19751" by code_simp
  note cells = grid_of_anchor [OF z h, unfolded g]
  have i: "workoutsByDate [?w] = Inr ?idx"
    by (simp add: workoutsByDate_def indexWorkout_def inheritedKeys_def Let_def)
  have f7: "getFullYear 10800000 (localMidnight 10800000 19758) = Some 2024"
    "getMonth 10800000 (localMidnight 10800000 19758) = Some 1"
    "getDate 10800000 (localMidnight 10800000 19758) = Some 5"
    "isoOf (localMidnight 10800000 19758) = ''2024-02-04''"
    by code_simp+
  have f8: "getDate 10800000 (localMidnight 10800000 19759) = Some 6"
    "isoOf (localMidnight 10800000 19759) = ''2024-02-05''"
    by code_simp+
  have s: "isoDayString 2024 1 5 = ''2024-02-05''" by code_simp
  show ?thesis
    unfolding Let_def i cells(1) cells(2)
    by (simp add: cellAt_def Let_def f7 f8 s hasEntry_def)
qed

section \<open>Theme\<close>

text \<open>The cached palette after a notification, key by key.\<close>

lemma map_of_assign:
  "map_of (assign k v pal) x = (if truthy v \<and> x = k then v else map_of pal x)"
  by (auto simp: assign_def truthy_def update_conv' split: option.splits)

lemma cache_per_key:
  "map_of (systemThemeRef (handleThemeChange host s)) x =
     (let p = themeParams host
      in if truthy (link_color p) \<and> x = ''--tg-theme-link-color'' then link_color p
         else if truthy (secondary_bg_color p) \<and> x = ''--tg-theme-secondary-bg-color''
         then secondary_bg_color p
         else if truthy (button_text_color p) \<and> x = ''--tg-theme-button-text-color''
         then button_text_color p
         else if truthy (button_color p) \<and> x = ''--tg-theme-button-color'' then button_color p
         else if truthy (hint_color p) \<and> x = ''--tg-theme-hint-color'' then hint_color p
         else if truthy (text_color p) \<and> x = ''--tg-theme-text-color'' then text_color p
         else if truthy (bg_color p) \<and> x = ''--tg-theme-bg-color'' then bg_color p
         else map_of (systemThemeRef s) x)"
proof -
  have "systemThemeRef (handleThemeChange host s)
          = extractThemeFromWebApp (systemThemeRef s) (themeParams host)"
    by (simp add: handleThemeChange_def Let_def)
  then show ?thesis
    by (simp only: Let_def extractThemeFromWebApp_def map_of_assign)
qed

text \<open>
  Claim C3 fails on the source in light mode. \<^verbatim>\<open>handleThemeChange\<close> first calls
  \<^verbatim>\<open>applyThemeParams\<close>, which writes every colour that the host supplies into the same
  style variables, whatever the mode; the guard on the mode covers only the second
  write. After a mount in light mode, a notification from a host that supplies the button
  colour \<^verbatim>\<open>#ff0000\<close> changes the applied button colour from that of the light palette
  to the host's; the cached palette is updated as the claim says.
\<close>

theorem theme_change_in_light_mode:
  "(let s = mount 0 fallbackWebApp 0;
        s' = handleThemeChange redButtonHost s
    in themeRef s = Light \<and> theme s = Light \<and>
       rootStyle (document s) ''--tg-theme-button-color'' = Some ''#2563eb'' \<and>
       rootStyle (document s') ''--tg-theme-button-color'' = Some ''#ff0000'' \<and>
       map_of (systemThemeRef s') ''--tg-theme-button-color'' = Some ''#ff0000'' \<and>
       themeRef s' = Light)"
  by code_simp

subsection \<open>Palettes and the invariant of the theme\<close>

lemma keys_assign: "k \<in> set (map fst pal) \<Longrightarrow> map fst (assign k v pal) = map fst pal"
  by (simp add: assign_def update_keys)

lemma values_update:
  "\<forall>(k, v) \<in> set pal. v \<noteq> [] \<Longrightarrow> x \<noteq> [] \<Longrightarrow> \<forall>(k, v) \<in> set (AList.update k' x pal). v \<noteq> []"
  by (induction pal) auto

lemma values_assign:
  "\<forall>(k, v) \<in> set pal. v \<noteq> [] \<Longrightarrow> \<forall>(k, v) \<in> set (assign k' x pal). v \<noteq> []"
  unfolding assign_def truthy_def using values_update [of pal "the x" k']
  by (auto split: option.splits)

lemma keys_initial:
  "map fst initialSystemTheme =
     [''--tg-theme-bg-color'', ''--tg-theme-text-color'', ''--tg-theme-hint-color'',
      ''--tg-theme-button-color'', ''--tg-theme-button-text-color'',
      ''--tg-theme-secondary-bg-color'', ''--tg-theme-link-color'']"
  by (simp add: initialSystemTheme_def)

lemma keys_light: "map fst lightTheme = map fst initialSystemTheme"
  by (simp add: initialSystemTheme_def lightTheme_def)

lemma distinct_keys: "distinct (map fst initialSystemTheme)"
  unfolding keys_initial by simp

lemma keys_extract:
  assumes "map fst pal = map fst initialSystemTheme"
  shows "map fst (extractThemeFromWebApp pal p) = map fst initialSystemTheme"
  unfolding extractThemeFromWebApp_def
  using assms by (simp add: keys_assign keys_initial)

lemma values_extract:
  "\<forall>(k, v) \<in> set pal. v \<noteq> [] \<Longrightarrow> \<forall>(k, v) \<in> set (extractThemeFromWebApp pal p). v \<noteq> []"
  unfolding extractThemeFromWebApp_def by (intro values_assign)

lemma values_initial: "\<forall>(k, v) \<in> set initialSystemTheme. v \<noteq> []"
  by (simp add: initialSystemTheme_def)

lemma values_light: "\<forall>(k, v) \<in> set lightTheme. v \<noteq> []"
  by (simp add: lightTheme_def)

lemma fold_setProperty:
  "distinct (map fst pal) \<Longrightarrow> \<forall>(k, v) \<in> set pal. v \<noteq> [] \<Longrightarrow>
     fold (\<lambda>(k, v). setProperty k v) pal st = st ++ map_of pal"
proof (induction pal arbitrary: st)
  case Nil
  then show ?case by simp
next
  case (Cons a pal)
  obtain k v where a: "a = (k, v)" by (cases a)
  have v: "v \<noteq> []" using Cons.prems(2) a by simp
  have n: "map_of pal k = None" using Cons.prems(1) a by (simp add: map_of_eq_None_iff)
  have s: "setProperty k v st = st(k \<mapsto> v)" using v by (simp add: setProperty_def)
  have "fold (\<lambda>(k, v). setProperty k v) (a # pal) st
          = fold (\<lambda>(k, v). setProperty k v) pal (st(k \<mapsto> v))"
    by (simp add: a s)
  also have "\<dots> = st(k \<mapsto> v) ++ map_of pal"
    using Cons.prems a by (intro Cons.IH) simp_all
  also have "\<dots> = st ++ map_of (a # pal)"
    using n by (auto simp: a map_add_def fun_eq_iff split: option.splits)
  finally show ?case .
qed

lemma rootStyle_applyCssVariables:
  "map fst pal = map fst initialSystemTheme \<Longrightarrow> \<forall>(k, v) \<in> set pal. v \<noteq> [] \<Longrightarrow>
     rootStyle (applyCssVariables pal doc) = rootStyle doc ++ map_of pal"
  unfolding applyCssVariables_def using distinct_keys by (simp add: fold_setProperty)

lemma applied_palette:
  assumes "map fst pal = map fst initialSystemTheme" and "\<forall>(k, v) \<in> set pal. v \<noteq> []"
  shows "\<forall>(k, v) \<in> set pal. rootStyle (applyCssVariables pal doc) k = Some v"
proof -
  have d: "distinct (map fst pal)" using assms(1) distinct_keys by simp
  show ?thesis
    unfolding rootStyle_applyCssVariables [OF assms]
    using d by (auto simp: map_add_def)
qed

subsection \<open>theme invariant\<close>

lemma themeInvariant_themeEffect:
  assumes "map fst (systemThemeRef s) = map fst initialSystemTheme"
    and "\<forall>(k, v) \<in> set (systemThemeRef s). v \<noteq> []"
  shows "themeInvariant (themeEffect s)"
  unfolding themeInvariant_def themeEffect_def
  using assms applied_palette [OF assms, of "document s"] by auto

lemma themeInvariant_mount: "themeInvariant (mount tza host now)"
  unfolding mount_def Let_def
  by (rule themeInvariant_themeEffect)
     (simp add: keys_extract, simp add: values_extract [OF values_initial])

lemma themeInvariant_toggleTheme: "themeInvariant s \<Longrightarrow> themeInvariant (toggleTheme s)"
  unfolding toggleTheme_def
  by (rule themeInvariant_themeEffect) (simp_all add: themeInvariant_def)

lemma themeInvariant_handleThemeChange:
  assumes "themeInvariant s"
  shows "themeInvariant (handleThemeChange host s)"
proof -
  let ?c = "extractThemeFromWebApp (systemThemeRef s) (themeParams host)"
  have k: "map fst ?c = map fst initialSystemTheme"
    using assms by (simp add: keys_extract themeInvariant_def)
  have v: "\<forall>(k, v) \<in> set ?c. v \<noteq> []"
    using assms by (intro values_extract) (simp add: themeInvariant_def)
  show ?thesis
    unfolding themeInvariant_def handleThemeChange_def Let_def
    using assms k v applied_palette [OF k v, of "applyThemeParams host (document s)"]
    by (auto simp: themeInvariant_def)
qed

lemma theme_fields_unchanged:
  "theme (handleTouchStart ts s) = theme s \<and> themeRef (handleTouchStart ts s) = themeRef s \<and>
   systemThemeRef (handleTouchStart ts s) = systemThemeRef s \<and>
   document (handleTouchStart ts s) = document s"
  "theme (handleTouchEnd tza ts s) = theme s \<and> themeRef (handleTouchEnd tza ts s) = themeRef s \<and>
   systemThemeRef (handleTouchEnd tza ts s) = systemThemeRef s \<and>
   document (handleTouchEnd tza ts s) = document s"
  "theme (clickCell tza fmt clock i s) = theme s \<and> themeRef (clickCell tza fmt clock i s) = themeRef s \<and>
   systemThemeRef (clickCell tza fmt clock i s) = systemThemeRef s \<and>
   document (clickCell tza fmt clock i s) = document s"
  "theme (closeModal s) = theme s \<and> themeRef (closeModal s) = themeRef s \<and>
   systemThemeRef (closeModal s) = systemThemeRef s \<and>
   document (closeModal s) = document s"
  "theme (loadWorkouts ab net s) = theme s \<and> themeRef (loadWorkouts ab net s) = themeRef s \<and>
   systemThemeRef (loadWorkouts ab net s) = systemThemeRef s \<and>
   document (loadWorkouts ab net s) = document s"
  by (auto simp: handleTouchStart_def handleTouchEnd_def clickCell_def handleDaySelect_def
      closeModal_def loadWorkouts_def Let_def split: option.splits sum.splits)

lemma themeInvariant_step: "themeInvariant s \<Longrightarrow> themeInvariant (step tza fmt e s)"
proof (cases e)
  case (ThemeChanged host)
  assume "themeInvariant s"
  then show ?thesis unfolding ThemeChanged by (simp add: themeInvariant_handleThemeChange)
next
  case ToggleTheme
  assume "themeInvariant s"
  then show ?thesis unfolding ToggleTheme by (simp add: themeInvariant_toggleTheme)
qed (simp_all add: themeInvariant_def theme_fields_unchanged)

lemma reachable_themeInvariant: "reachable tza fmt s \<Longrightarrow> themeInvariant s"
  by (induction rule: reachable.induct) (simp_all add: themeInvariant_mount themeInvariant_step)

lemma toggle_twice:
  assumes "themeInvariant s" and "theme s = Dark"
  shows "toggleTheme (toggleTheme s) = s"
proof -
  let ?st = "rootStyle (document s)"
  let ?c = "systemThemeRef s"
  have k: "map fst ?c = map fst initialSystemTheme" and v: "\<forall>(k, v) \<in> set ?c. v \<noteq> []"
    and r: "themeRef s = Dark" and a: "\<forall>(k, v) \<in> set ?c. ?st k = Some v"
    using assms by (simp_all add: themeInvariant_def)
  have d: "dom (map_of lightTheme) = dom (map_of ?c)"
    using k keys_light by (simp add: dom_map_of_conv_image_fst flip: set_map)
  have "(?st ++ map_of lightTheme) ++ map_of ?c = ?st"
  proof
    fix x
    show "((?st ++ map_of lightTheme) ++ map_of ?c) x = ?st x"
    proof (cases "map_of ?c x")
      case None
      then have "map_of lightTheme x = None" using d by (metis domIff)
      then show ?thesis using None by (simp add: map_add_def)
    next
      case (Some y)
      then have "(x, y) \<in> set ?c" by (rule map_of_SomeD)
      then have "?st x = Some y" using a by auto
      then show ?thesis using Some by (simp add: map_add_def)
    qed
  qed
  then have "rootStyle (applyCssVariables ?c (applyCssVariables lightTheme (document s))) = ?st"
    by (simp add: rootStyle_applyCssVariables k v keys_light values_light)
  then have "applyCssVariables ?c (applyCssVariables lightTheme (document s)) = document s"
    by (simp add: applyCssVariables_def)
  then show ?thesis
    using assms(2) r by (simp add: toggleTheme_def themeEffect_def)
qed

text \<open>
  Claim C7. The toggle never changes the cached host-derived palette. In every reachable
  state in dark mode, the toggle to light applies the light palette, and the toggle back
  to dark restores the state as it was: every style variable of the cached palette
  carries its cached value again.
\<close>

theorem toggle_restores_palette:
  "systemThemeRef (toggleTheme s) = systemThemeRef s \<and>
   (reachable tza fmt s \<and> theme s = Dark \<longrightarrow>
      theme (toggleTheme s) = Light \<and>
      document (toggleTheme s) = applyCssVariables lightTheme (document s) \<and>
      toggleTheme (toggleTheme s) = s \<and>
      (\<forall>(k, v) \<in> set (systemThemeRef s).
         rootStyle (document (toggleTheme (toggleTheme s))) k = Some v))"
proof -
  have c: "systemThemeRef (toggleTheme s) = systemThemeRef s"
    by (simp add: toggleTheme_def themeEffect_def)
  have "theme (toggleTheme s) = Light \<and>
      document (toggleTheme s) = applyCssVariables lightTheme (document s) \<and>
      toggleTheme (toggleTheme s) = s \<and>
      (\<forall>(k, v) \<in> set (systemThemeRef s).
         rootStyle (document (toggleTheme (toggleTheme s))) k = Some v)"
    if r: "reachable tza fmt s" and d: "theme s = Dark"
  proof -
    have i: "themeInvariant s" using r by (rule reachable_themeInvariant)
    have t: "toggleTheme (toggleTheme s) = s" using i d by (rule toggle_twice)
    have "\<forall>(k, v) \<in> set (systemThemeRef s). rootStyle (document s) k = Some v"
      using i d by (simp add: themeInvariant_def)
    then show ?thesis
      unfolding t using d by (simp add: toggleTheme_def themeEffect_def)
  qed
  then show ?thesis using c by blast
qed

theorem toggle_restores_palette_witness:
  "(let s = mount 0 redButtonHost 0
    in reachable 0 (\<lambda>d. []) s \<and> theme s = Dark \<and>
       toggleTheme (toggleTheme s) = s \<and>
       rootStyle (document s) ''--tg-theme-button-color'' = Some ''#ff0000'' \<and>
       rootStyle (document (toggleTheme s)) ''--tg-theme-button-color'' = Some ''#2563eb'' \<and>
       rootStyle (document (toggleTheme (toggleTheme s))) ''--tg-theme-button-color''
         = Some ''#ff0000'')"
proof -
  let ?s = "mount 0 redButtonHost 0"
  have r: "reachable 0 (\<lambda>d. []) ?s" by (rule reach_mount)
  have d: "theme ?s = Dark" by (simp add: mount_def themeEffect_def redButtonHost_def Let_def)
  have b: "rootStyle (document ?s) ''--tg-theme-button-color'' = Some ''#ff0000''" by code_simp
  have l: "rootStyle (document (toggleTheme ?s)) ''--tg-theme-button-color'' = Some ''#2563eb''"
    by code_simp
  show ?thesis
    using r d b l toggle_restores_palette [of ?s 0 "\<lambda>d. []"] by (simp add: Let_def)
qed

section \<open>Selection\<close>

lemma mapE_nth:
  "mapE f xs = Inr ys \<Longrightarrow> length ys = length xs \<and> (\<forall>i<length xs. f (xs ! i) = Inr (ys ! i))"
proof (induction xs arbitrary: ys)
  case Nil
  then show ?case by simp
next
  case (Cons x xs)
  from Cons.prems obtain y zs where y: "f x = Inr y" and zs: "mapE f xs = Inr zs"
    and ys: "ys = y # zs"
    by (auto split: sum.splits)
  from Cons.IH [OF zs] show ?case
    using y ys by (auto simp: nth_Cons split: nat.splits)
qed

lemma calendarCell_hasWorkout:
  "calendarCell tza fmt dm idx clock gs i = Inr c \<Longrightarrow> hasWorkout c = hasEntry idx (isoDate c)"
  by (auto simp: calendarCell_def Let_def split: sum.splits)

lemma calendarCells_hasWorkout:
  assumes "calendarCells tza fmt dm idx clock = Inr cells" and "i < length cells"
  shows "hasWorkout (cells ! i) = hasEntry idx (isoDate (cells ! i))"
proof -
  from mapE_nth [OF assms(1) [unfolded calendarCells_def]] assms(2)
  have "calendarCell tza fmt dm idx clock (gridStartOf tza dm) ([0..<42] ! i) = Inr (cells ! i)"
    by simp
  then show ?thesis by (rule calendarCell_hasWorkout)
qed

lemma clickCell_eq:
  assumes "workoutsByDate (workouts s) = Inr idx"
    and "calendarCells tza fmt (displayedMonth s) idx clock = Inr cells" and "i < length cells"
  shows "clickCell tza fmt clock i s =
           (if hasEntry idx (isoDate (cells ! i)) then s\<lparr>selectedDate := Some (isoDate (cells ! i))\<rparr>
            else s)"
  using assms calendarCells_hasWorkout [OF assms(2,3)]
  by (simp add: clickCell_def renderedCells_def handleDaySelect_def)

lemma selectionInvariant_fields:
  "workouts s' = workouts s \<Longrightarrow> selectedDate s' = selectedDate s \<Longrightarrow>
     selectionInvariant s' = selectionInvariant s"
  by (auto simp: selectionInvariant_def split: option.splits sum.splits)

lemma selectionInv_fields:
  "selectionInv s \<Longrightarrow> workouts s' = workouts s \<and> selectedDate s' = selectedDate s \<and>
     fetchPending s' = fetchPending s \<Longrightarrow> selectionInv s'"
  using selectionInvariant_fields [of s' s] by (simp add: selectionInv_def)

lemma selectionInv_pending:
  "selectionInv s \<Longrightarrow> fetchPending s \<Longrightarrow> selectedDate s = None"
  by (auto simp: selectionInv_def selectionInvariant_def workoutsByDate_def hasEntry_def
      split: option.splits)

lemma selectionInv_clickCell: "selectionInv s \<Longrightarrow> selectionInv (clickCell tza fmt clock i s)"
proof -
  assume a: "selectionInv s"
  show ?thesis
  proof (cases "renderedCells tza fmt clock s")
    case (Inl e)
    then show ?thesis using a by (simp add: clickCell_def)
  next
    case (Inr cells)
    then obtain idx where idx: "workoutsByDate (workouts s) = Inr idx"
      and cells: "calendarCells tza fmt (displayedMonth s) idx clock = Inr cells"
      by (auto simp: renderedCells_def split: sum.splits)
    show ?thesis
    proof (cases "i < length cells \<and> hasWorkout (cells ! i)")
      case True
      then have "hasEntry idx (isoDate (cells ! i))"
        using calendarCells_hasWorkout [OF cells, of i] by simp
      then show ?thesis
        using a True Inr idx
        by (auto simp: clickCell_def handleDaySelect_def selectionInv_def selectionInvariant_def)
    next
      case False
      then show ?thesis using a Inr by (auto simp: clickCell_def)
    qed
  qed
qed

lemma selectionInv_loadWorkouts:
  assumes "selectionInv s" and "fetchPending s"
  shows "selectionInv (loadWorkouts ab net s)"
proof -
  have n: "selectedDate s = None" using assms by (rule selectionInv_pending)
  have "selectedDate (loadWorkouts ab net s) = None"
    using n by (auto simp: loadWorkouts_def Let_def split: sum.splits)
  moreover have "\<not> fetchPending (loadWorkouts ab net s)"
    by (auto simp: loadWorkouts_def Let_def split: sum.splits)
  ultimately show ?thesis by (simp add: selectionInv_def selectionInvariant_def)
qed

lemma selection_fields_unchanged:
  "workouts (handleThemeChange host s) = workouts s \<and>
   selectedDate (handleThemeChange host s) = selectedDate s \<and>
   fetchPending (handleThemeChange host s) = fetchPending s"
  "workouts (toggleTheme s) = workouts s \<and> selectedDate (toggleTheme s) = selectedDate s \<and>
   fetchPending (toggleTheme s) = fetchPending s"
  "workouts (handleTouchStart ts s) = workouts s \<and>
   selectedDate (handleTouchStart ts s) = selectedDate s \<and>
   fetchPending (handleTouchStart ts s) = fetchPending s"
  "workouts (handleTouchEnd tza ts s) = workouts s \<and>
   selectedDate (handleTouchEnd tza ts s) = selectedDate s \<and>
   fetchPending (handleTouchEnd tza ts s) = fetchPending s"
  by (auto simp: handleThemeChange_def toggleTheme_def themeEffect_def handleTouchStart_def
      handleTouchEnd_def Let_def split: option.splits)

lemma selectionInv_step: "selectionInv s \<Longrightarrow> selectionInv (step tza fmt e s)"
proof (cases e)
  case (DayClick clock i)
  assume "selectionInv s"
  then show ?thesis unfolding DayClick by (simp add: selectionInv_clickCell)
next
  case (FetchSettled ab net)
  assume "selectionInv s"
  then show ?thesis unfolding FetchSettled by (simp add: selectionInv_loadWorkouts)
next
  case CloseModal
  assume "selectionInv s"
  then show ?thesis unfolding CloseModal
    by (simp add: selectionInv_def selectionInvariant_def closeModal_def)
next
  case (ThemeChanged host)
  assume "selectionInv s"
  then show ?thesis unfolding ThemeChanged
    by (rule selectionInv_fields) (simp add: selection_fields_unchanged)
next
  case ToggleTheme
  assume "selectionInv s"
  then show ?thesis unfolding ToggleTheme
    by (rule selectionInv_fields) (simp add: selection_fields_unchanged)
next
  case PreviousMonth
  assume "selectionInv s"
  then show ?thesis unfolding PreviousMonth by (rule selectionInv_fields) simp
next
  case NextMonth
  assume "selectionInv s"
  then show ?thesis unfolding NextMonth by (rule selectionInv_fields) simp
next
  case (TouchStart ts)
  assume "selectionInv s"
  then show ?thesis unfolding TouchStart
    by (rule selectionInv_fields) (simp add: selection_fields_unchanged)
next
  case (TouchEnd ts)
  assume "selectionInv s"
  then show ?thesis unfolding TouchEnd
    by (rule selectionInv_fields) (simp add: selection_fields_unchanged)
qed

lemma selectionInv_mount: "selectionInv (mount tza host now)"
  by (simp add: selectionInv_def selectionInvariant_def mount_def themeEffect_def Let_def)

lemma reachable_selectionInv: "reachable tza fmt s \<Longrightarrow> selectionInv s"
  by (induction rule: reachable.induct) (simp_all add: selectionInv_mount selectionInv_step)

text \<open>
  Claim C8. In every reachable state a selected date has a non-empty entry in the
  workout index, and every event preserves this. Selecting happens by the click on a
  cell of the rendered grid: it is a no-op when the index has no non-empty entry for the
  date string of the cell, and otherwise it sets the selection to that string;
  \<^verbatim>\<open>handleDaySelect\<close> itself ignores a call whose flag is false. Closing always clears
  the selection.
\<close>

theorem selection_invariant:
  "(reachable tza fmt s \<longrightarrow> selectionInvariant s \<and> selectionInvariant (step tza fmt e s)) \<and>
   (workoutsByDate (workouts s) = Inr idx \<and>
    calendarCells tza fmt (displayedMonth s) idx clock = Inr cells \<and> i < length cells \<longrightarrow>
      clickCell tza fmt clock i s =
        (if hasEntry idx (isoDate (cells ! i))
         then s\<lparr>selectedDate := Some (isoDate (cells ! i))\<rparr> else s)) \<and>
   handleDaySelect d False s = s \<and>
   handleDaySelect d True s = s\<lparr>selectedDate := Some d\<rparr> \<and>
   closeModal s = s\<lparr>selectedDate := None\<rparr>"
proof -
  have "selectionInvariant s \<and> selectionInvariant (step tza fmt e s)" if r: "reachable tza fmt s"
  proof -
    have "reachable tza fmt (step tza fmt e s)" using r by (rule reach_step)
    then show ?thesis
      using r reachable_selectionInv [of tza fmt] by (simp add: selectionInv_def)
  qed
  then show ?thesis
    using clickCell_eq [of s idx tza fmt clock cells i]
    by (simp add: handleDaySelect_def closeModal_def)
qed

theorem selection_invariant_witness:
  "(let w = \<lparr>title = ''Leg Day'', date = ''2024-02-05'', exercises = [''Squat'', ''Lunge'']\<rparr>;
        r = \<lparr>ok = True, status = 200, json = Inr [w]\<rparr>;
        s0 = mount 0 fallbackWebApp 1707134400000;
        s1 = step 0 (\<lambda>d. []) (FetchSettled NotAborted (Fulfilled r)) s0;
        s2 = step 0 (\<lambda>d. []) (DayClick (\<lambda>i. 0) 7) s1
    in reachable 0 (\<lambda>d. []) s2 \<and> selectedDate s2 = Some ''2024-02-05'' \<and>
       selectionInvariant s2 \<and>
       step 0 (\<lambda>d. []) (DayClick (\<lambda>i. 0) 8) s1 = s1 \<and>
       selectedDate (closeModal s2) = None)"
proof -
  let ?w = "\<lparr>title = ''Leg Day'', date = ''2024-02-05'', exercises = [''Squat'', ''Lunge'']\<rparr>"
  let ?r = "\<lparr>ok = True, status = 200, json = Inr [?w]\<rparr>"
  let ?fmt = "\<lambda>d::Date. []::string"
  let ?clock = "\<lambda>i::nat. 0::int"
  let ?s0 = "mount 0 fallbackWebApp 1707134400000"
  let ?s1 = "step 0 ?fmt (FetchSettled NotAborted (Fulfilled ?r)) ?s0"
  let ?s2 = "step 0 ?fmt (DayClick ?clock 7) ?s1"
  let ?idx = "[''2024-02-05'' \<mapsto> [?w]]"
  let ?cells = "map (cellAt 0 ?fmt (localMidnight 0 (MakeDay 2024 1 1)) ?idx ?clock 19751) [0..<42]"
  have r1: "reachable 0 ?fmt ?s1" by (intro reach_step reach_mount)
  then have r2: "reachable 0 ?fmt ?s2" by (rule reach_step)
  have y: "getFullYear 0 (TimeValue 1707134400000) = Some 2024"
    "getMonth 0 (TimeValue 1707134400000) = Some 1" by code_simp+
  have s1: "workouts ?s1 = [?w]" "displayedMonth ?s1 = newDate 0 (Some 2024) (Some 1) (Some 1)"
    by (simp_all add: mount_def themeEffect_def loadWorkouts_def loadWorkouts_try_def
        awaitFetch_def awaitJson_def Let_def y)
  have i: "workoutsByDate (workouts ?s1) = Inr ?idx"
    unfolding s1 by (simp add: workoutsByDate_def indexWorkout_def inheritedKeys_def Let_def)
  have z: "zoneOk 0" by (simp add: zoneOk_def msPerDay_def)
  have h: "(0::int) \<le> 1" "(1::int) \<le> 11"
    "(- 271820 \<le> (2024::int) \<and> (2024::int) < 0) \<or> ((2024::int) = 100 \<and> (1::int) \<le> 1)
       \<or> (100 < (2024::int) \<and> (2024::int) \<le> 275759)"
    by simp_all
  have g: "MakeDay 2024 1 1 - (WeekDay (MakeDay 2024 1 1) + 6) mod 7 = 19751" by code_simp
  note grid = grid_of_anchor [OF z h, unfolded g]
  have c: "calendarCells 0 ?fmt (displayedMonth ?s1) ?idx ?clock = Inr ?cells"
    unfolding s1 grid(1) by (rule grid(2))
  have d7: "isoDate (?cells ! 7) = ''2024-02-05''" and d8: "isoDate (?cells ! 8) = ''2024-02-06''"
  proof -
    have "isoOf (localMidnight 0 19758) = ''2024-02-05''"
      "isoOf (localMidnight 0 19759) = ''2024-02-06''" by code_simp+
    then show "isoDate (?cells ! 7) = ''2024-02-05''" "isoDate (?cells ! 8) = ''2024-02-06''"
      by (simp_all add: cellAt_def Let_def)
  qed
  have e: "hasEntry ?idx ''2024-02-05''" "\<not> hasEntry ?idx ''2024-02-06''"
    by (simp_all add: hasEntry_def)
  have l: "(7::nat) < length ?cells" "(8::nat) < length ?cells" by simp_all
  note t7 = selection_invariant [of 0 ?fmt ?s1 CloseModal ?idx ?clock ?cells 7 "[]",
      THEN conjunct2, THEN conjunct1, rule_format, OF conjI [OF i conjI [OF c l(1)]]]
  note t8 = selection_invariant [of 0 ?fmt ?s1 CloseModal ?idx ?clock ?cells 8 "[]",
      THEN conjunct2, THEN conjunct1, rule_format, OF conjI [OF i conjI [OF c l(2)]]]
  have c7: "?s2 = ?s1\<lparr>selectedDate := Some ''2024-02-05''\<rparr>"
    using t7 unfolding d7 by (simp only: step.simps e if_True)
  have c8: "step 0 ?fmt (DayClick ?clock 8) ?s1 = ?s1"
    using t8 unfolding d8 by (simp only: step.simps e if_False)
  have inv: "selectionInvariant ?s2"
    using selection_invariant [of 0 ?fmt ?s2 CloseModal ?idx ?clock ?cells 7 "[]"] r2 by blast
  have sel: "selectedDate ?s2 = Some ''2024-02-05''" unfolding c7 by simp
  show ?thesis
    unfolding Let_def using r2 sel inv c8 by (simp add: closeModal_def)
qed

end
